theory Spec2Isabelle
  imports Main "HOL-Library.Sublist"
begin

section \<open>Strings\<close>

text \<open>
  Text is a \<^typ>\<open>string\<close>, the UTF-8 bytes of the Python \<open>str\<close>. Every token the
  program searches for or inserts is ASCII, and an ASCII byte never occurs inside a
  multi-byte UTF-8 sequence, so replacing on bytes and on code points agree.

  \<open>str.replace(old, new)\<close> scans from the left and replaces every non-overlapping
  occurrence of \<open>old\<close>; with an empty \<open>old\<close> it puts \<open>new\<close> before every
  character and at the end.
\<close>

function replace_scan :: "string \<Rightarrow> string \<Rightarrow> string \<Rightarrow> string" where
  "replace_scan old new s =
     (if s = [] then []
      else if old \<noteq> [] \<and> prefix old s then new @ replace_scan old new (drop (length old) s)
      else hd s # replace_scan old new (tl s))"
  by pat_completeness auto
termination
  by (relation "measure (\<lambda>(old, new, s). length s)") auto

declare replace_scan.simps [simp del]

definition str_replace :: "string \<Rightarrow> string \<Rightarrow> string \<Rightarrow> string" where
  "str_replace s old new =
     (if old = [] then new @ concat (map (\<lambda>c. c # new) s) else replace_scan old new s)"

text \<open>\<open>str(n)\<close> for a non-negative integer, as the f-strings print \<open>len(...)\<close>.\<close>

function str_nat :: "nat \<Rightarrow> string" where
  "str_nat n =
     (if n < 10 then [''0123456789'' ! n]
      else str_nat (n div 10) @ [''0123456789'' ! (n mod 10)])"
  by pat_completeness auto
termination
  by (relation "measure id") auto

declare str_nat.simps [simp del]

section \<open>Configuration (module-level constants of build.py)\<close>

definition STYLE_FILE :: string where
  "STYLE_FILE = ''style.css''"

definition PDF_FILE :: string where
  "PDF_FILE = ''AI-Security-Architecture-Guide.pdf''"

definition HTML_FILE :: string where
  "HTML_FILE = ''AI-Security-Architecture-Guide.html''"

definition CHAPTERS :: "string list" where
  "CHAPTERS =
   [''chapter-01-ai-landscape.md'',
    ''chapter-02-how-llms-work.md'',
    ''chapter-03-threat-modeling.md'',
    ''chapter-04-prompt-injection.md'',
    ''chapter-05-jailbreaks-guardrail-bypass.md'',
    ''chapter-06-data-leakage-privacy.md'',
    ''chapter-07-secure-ai-design.md'',
    ''chapter-08-supply-chain-security.md'',
    ''chapter-09-reference-architectures.md'',
    ''chapter-10-ai-security-program.md'',
    ''appendix-a-cheat-sheet.md'',
    ''appendix-b-tools-resources.md'',
    ''appendix-c-glossary.md'']"

definition EXERCISES :: "string list" where
  "EXERCISES =
   [''exercise-01-threat-model-chatbot.md'',
    ''exercise-02-prompt-injection-lab.md'',
    ''exercise-03-design-review.md'',
    ''exercise-04-supply-chain-audit.md'',
    ''exercise-05-architecture-challenge.md'']"

definition COVER :: string where
  \<open>COVER =
     ''\<newline>'' @
     ''<div class="cover-page">\<newline>'' @
     ''    <h1>AI Security Architecture</h1>\<newline>'' @
     ''    <div class="subtitle">A Practical Guide to Securing LLM-Powered Systems</div>\<newline>'' @
     ''    <div class="edition">Threat Modeling &bull; Secure Design &bull; Reference Architectures &bull; 2026 Edition</div>\<newline>'' @
     ''    <div class="tagline">\<newline>'' @
     ''        10 chapters &bull; 5 hands-on exercises &bull; No AI/ML experience required\<newline>'' @
     ''    </div>\<newline>'' @
     ''</div>\<newline>''\<close>

definition TOC_ENTRIES :: "(string \<times> bool) list" where
  "TOC_ENTRIES =
   [(''Chapter 1: The AI Security Landscape'', True),
    (''Chapter 2: How LLMs Work (Just Enough to Secure Them)'', True),
    (''Chapter 3: Threat Modeling AI Systems'', True),
    (''Chapter 4: Prompt Injection'', True),
    (''Chapter 5: Jailbreaks & Guardrail Bypass'', True),
    (''Chapter 6: Data Leakage & Privacy'', True),
    (''Chapter 7: Secure AI System Design'', True),
    (''Chapter 8: AI Supply Chain Security'', True),
    (''Chapter 9: Reference Architectures'', True),
    (''Chapter 10: Building Your AI Security Program'', True),
    (''Appendix A: AI Security Cheat Sheet'', False),
    (''Appendix B: Tools & Resources'', False),
    (''Appendix C: Glossary'', False),
    (''Exercises'', False)]"

text \<open>
  \<open>build_document\<close> reads the four lists above as globals. The model passes them in a
  record, so that a property can be stated for every configuration; \<open>module_config\<close>
  is the one the module defines.
\<close>

record config =
  chapters :: "string list"
  exercises :: "string list"
  cover :: string
  toc_entries :: "(string \<times> bool) list"

definition module_config :: config where
  "module_config =
     \<lparr>chapters = CHAPTERS, exercises = EXERCISES, cover = COVER, toc_entries = TOC_ENTRIES\<rparr>"

section \<open>The world the script runs in\<close>

text \<open>
  A path that \<open>exists()\<close> is either a file that \<open>read_text(encoding="utf-8")\<close> returns
  as text, or something the read raises on (a directory, a file without read permission,
  bytes that are not UTF-8). A source directory maps a filename to what is at
  \<open>source_dir / filename\<close>; \<open>None\<close> is a path that does not exist.
\<close>

datatype entry = Text string | Unreadable

type_synonym directory = "string \<Rightarrow> entry option"

text \<open>
  \<open>OUTPUT_DIR\<close> is absent, is something that is not a directory, or is a directory
  holding files by name.
\<close>

datatype node = Missing | NotADirectory | Directory "string \<Rightarrow> string option"

text \<open>
  A call of the rendering engine: entering and leaving \<open>with sync_playwright()\<close>
  (\<open>Start\<close>, \<open>Stop\<close>) and the calls of lines 161 to 183.
\<close>

datatype engine_call =
  Start | Launch | NewPage | Goto string | WaitForLoadState | Pdf string | Close | Stop

datatype error =
  FileNotFoundError string
  | ReadError string
  | FileExistsError
  | NotADirectoryError string
  | EngineError engine_call

text \<open>
  One \<open>print\<close> call. \<open>PdfSaved path size\<close> is line 186, whose text shows
  \<open>size / (1024 * 1024)\<close> as a float with one decimal.
\<close>

datatype out_line = Line string | PdfSaved string nat

record world =
  style_file :: "entry option"
  content_dir :: directory
  exercises_dir :: directory
  output_dir :: node
  stdout :: "out_line list"
  engine_log :: "engine_call list"

text \<open>
  The two libraries the script imports: \<open>markdown.markdown(text, extensions=...)\<close>,
  and the Playwright engine, of which the model keeps whether each call succeeds and
  the bytes \<open>page.pdf\<close> writes for the page it has loaded.
\<close>

record env =
  markdown :: "string \<Rightarrow> string list \<Rightarrow> string"
  engine_ok :: "engine_call \<Rightarrow> bool"
  engine_pdf :: "string \<Rightarrow> string"

type_synonym 'a prog = "world \<Rightarrow> (error + 'a) \<times> world"

text \<open>Sequencing: an exception ends the run with the world as it is at that point.\<close>

definition bind :: "'a prog \<Rightarrow> ('a \<Rightarrow> 'b prog) \<Rightarrow> 'b prog" where
  "bind m f w = (case m w of (Inl e, w') \<Rightarrow> (Inl e, w') | (Inr x, w') \<Rightarrow> f x w')"

definition print_line :: "out_line \<Rightarrow> world \<Rightarrow> world" where
  "print_line l w = w\<lparr>stdout := stdout w @ [l]\<rparr>"

definition read_text :: "string \<Rightarrow> entry option \<Rightarrow> error + string" where
  "read_text path e =
     (case e of
        None \<Rightarrow> Inl (FileNotFoundError path)
      | Some Unreadable \<Rightarrow> Inl (ReadError path)
      | Some (Text t) \<Rightarrow> Inr t)"

definition lookup_file :: "string \<Rightarrow> world \<Rightarrow> string option" where
  "lookup_file path w = (case output_dir w of Directory files \<Rightarrow> files path | _ \<Rightarrow> None)"

definition write_file :: "string \<Rightarrow> string \<Rightarrow> unit prog" where
  "write_file path content w =
     (case output_dir w of
        Directory files \<Rightarrow> (Inr (), w\<lparr>output_dir := Directory (files(path \<mapsto> content))\<rparr>)
      | Missing \<Rightarrow> (Inl (FileNotFoundError path), w)
      | NotADirectory \<Rightarrow> (Inl (NotADirectoryError path), w))"

text \<open>\<open>OUTPUT_DIR.mkdir(exist_ok=True)\<close>\<close>

definition mkdir_exist_ok :: "unit prog" where
  "mkdir_exist_ok w =
     (case output_dir w of
        Missing \<Rightarrow> (Inr (), w\<lparr>output_dir := Directory Map.empty\<rparr>)
      | Directory files \<Rightarrow> (Inr (), w)
      | NotADirectory \<Rightarrow> (Inl FileExistsError, w))"

text \<open>\<open>path.unlink(missing_ok=...)\<close>\<close>

definition unlink :: "string \<Rightarrow> bool \<Rightarrow> unit prog" where
  "unlink path missing_ok w =
     (case output_dir w of
        Directory files \<Rightarrow>
          (case files path of
             Some content \<Rightarrow> (Inr (), w\<lparr>output_dir := Directory (files(path := None))\<rparr>)
           | None \<Rightarrow> if missing_ok then (Inr (), w) else (Inl (FileNotFoundError path), w))
      | Missing \<Rightarrow> if missing_ok then (Inr (), w) else (Inl (FileNotFoundError path), w)
      | NotADirectory \<Rightarrow> (Inl (NotADirectoryError path), w))"

section \<open>build\_toc\<close>

fun build_toc_items :: "(string \<times> bool) list \<Rightarrow> string list \<Rightarrow> string list" where
  "build_toc_items [] items = items"
| \<open>build_toc_items ((title, is_chapter) # entries) items =
     (let css_class = (if is_chapter then ''chapter-entry'' else ''appendix-entry'')
      in build_toc_items entries
           (items @ [''<li class="'' @ css_class @ ''">'' @ title @ ''</li>'']))\<close>

definition build_toc :: "(string \<times> bool) list \<Rightarrow> string" where
  \<open>build_toc entries =
     ''\<newline>'' @
     ''<div class="toc">\<newline>'' @
     ''    <h1>Table of Contents</h1>\<newline>'' @
     ''    <ul>\<newline>'' @
     ''        '' @ concat (build_toc_items entries []) @ ''\<newline>'' @
     ''    </ul>\<newline>'' @
     ''</div>\<newline>''\<close>

section \<open>md\_to\_html\<close>

definition md_extensions :: "string list" where
  "md_extensions = [''tables'', ''fenced_code'']"

definition unchecked_token :: string where
  "unchecked_token = ''[ ]''"

definition checked_token :: string where
  "checked_token = ''[x]''"

definition unchecked_widget :: string where
  \<open>unchecked_widget = ''<input type="checkbox" disabled>''\<close>

definition checked_widget :: string where
  \<open>checked_widget = ''<input type="checkbox" checked disabled>''\<close>

text \<open>Lines 119 and 120: the two replacements, one after the other.\<close>

definition checkboxes :: "string \<Rightarrow> string" where
  "checkboxes html =
     str_replace (str_replace html unchecked_token unchecked_widget)
       checked_token checked_widget"

text \<open>Lines 117 to 120: the conversion of one file's text.\<close>

definition md_to_html_convert :: "env \<Rightarrow> string \<Rightarrow> string" where
  "md_to_html_convert ev md_text = checkboxes (markdown ev md_text md_extensions)"

text \<open>Line 121: the container every converted fragment is put in.\<close>

definition chapter_div :: "string \<Rightarrow> string" where
  \<open>chapter_div html = ''<div class="chapter">\<newline>'' @ html @ ''\<newline></div>''\<close>

definition warning_line :: "string \<Rightarrow> out_line" where
  "warning_line filename = Line (''  WARNING: '' @ filename @ '' not found, skipping.'')"

text \<open>The loop of lines 110 to 121, with \<open>sections\<close> as the accumulator.\<close>

fun md_to_html_loop :: "env \<Rightarrow> directory \<Rightarrow> string list \<Rightarrow> string list \<Rightarrow> (string list) prog" where
  "md_to_html_loop ev source_dir [] sections w = (Inr sections, w)"
| "md_to_html_loop ev source_dir (filename # filenames) sections w =
     (case source_dir filename of
        None \<Rightarrow>
          md_to_html_loop ev source_dir filenames sections (print_line (warning_line filename) w)
      | Some Unreadable \<Rightarrow> (Inl (ReadError filename), w)
      | Some (Text md_text) \<Rightarrow>
          md_to_html_loop ev source_dir filenames
            (sections @ [chapter_div (md_to_html_convert ev md_text)]) w)"

definition md_to_html :: "env \<Rightarrow> directory \<Rightarrow> string list \<Rightarrow> (string list) prog" where
  "md_to_html ev source_dir filenames w = md_to_html_loop ev source_dir filenames [] w"

section \<open>build\_document\<close>

text \<open>Lines 130 to 136: both lists are converted and their counts printed.\<close>

definition build_document_sections :: "env \<Rightarrow> config \<Rightarrow> (string list \<times> string list) prog" where
  "build_document_sections ev cfg =
     bind (\<lambda>w. md_to_html ev (content_dir w) (chapters cfg) w) (\<lambda>chapter_sections.
     bind (\<lambda>w. (Inr (), print_line
             (Line (''  Loaded '' @ str_nat (length chapter_sections) @ '' chapters.'')) w)) (\<lambda>_.
     bind (\<lambda>w. md_to_html ev (exercises_dir w) (exercises cfg) w) (\<lambda>exercise_sections.
     bind (\<lambda>w. (Inr (), print_line
             (Line (''  Loaded '' @ str_nat (length exercise_sections) @ '' exercises.'')) w)) (\<lambda>_.
     (\<lambda>w. (Inr (chapter_sections, exercise_sections), w))))))"

text \<open>Lines 140 to 153: the f-string.\<close>

definition document_text :: "string \<Rightarrow> string \<Rightarrow> string \<Rightarrow> string list \<Rightarrow> string" where
  \<open>document_text css cover_block toc all_sections =
     ''<!DOCTYPE html>\<newline>'' @
     ''<html lang="en">\<newline>'' @
     ''<head>\<newline>'' @
     ''    <meta charset="UTF-8">\<newline>'' @
     ''    <style>\<newline>'' @
     css @ ''\<newline>'' @
     ''    </style>\<newline>'' @
     ''</head>\<newline>'' @
     ''<body>\<newline>'' @
     cover_block @ ''\<newline>'' @
     toc @ ''\<newline>'' @
     concat all_sections @ ''\<newline>'' @
     ''</body>\<newline>'' @
     ''</html>''\<close>

definition build_document :: "env \<Rightarrow> config \<Rightarrow> string prog" where
  "build_document ev cfg =
     bind (\<lambda>w. (read_text STYLE_FILE (style_file w), w)) (\<lambda>css.
     bind (build_document_sections ev cfg) (\<lambda>(chapter_sections, exercise_sections).
     (\<lambda>w. let all_sections = chapter_sections @ exercise_sections
          in (Inr (document_text css (cover cfg) (build_toc (toc_entries cfg)) all_sections), w))))"

section \<open>render\_pdf\<close>

text \<open>
  A call of the engine is logged when it is made; it returns or raises as the
  environment decides.
\<close>

definition engine :: "env \<Rightarrow> engine_call \<Rightarrow> unit prog" where
  "engine ev c w =
     (let w' = w\<lparr>engine_log := engine_log w @ [c]\<rparr>
      in if engine_ok ev c then (Inr (), w') else (Inl (EngineError c), w'))"

text \<open>\<open>page.goto\<close> loads the file at \<open>html_path\<close>; the page is what the file holds.\<close>

definition engine_goto :: "env \<Rightarrow> string \<Rightarrow> string prog" where
  "engine_goto ev html_path =
     bind (engine ev (Goto html_path)) (\<lambda>_ w.
       case lookup_file html_path w of
         None \<Rightarrow> (Inl (EngineError (Goto html_path)), w)
       | Some page \<Rightarrow> (Inr page, w))"

text \<open>\<open>page.pdf(path=...)\<close> writes the paginated page to \<open>pdf_path\<close>.\<close>

definition engine_page_pdf :: "env \<Rightarrow> string \<Rightarrow> string \<Rightarrow> unit prog" where
  "engine_page_pdf ev page pdf_path =
     bind (engine ev (Pdf pdf_path)) (\<lambda>_ w.
       case write_file pdf_path (engine_pdf ev page) w of
         (Inl e, w') \<Rightarrow> (Inl (EngineError (Pdf pdf_path)), w')
       | (Inr u, w') \<Rightarrow> (Inr u, w'))"

text \<open>Lines 161 to 183: the body of the \<open>with\<close> statement.\<close>

definition render_pdf_body :: "env \<Rightarrow> string \<Rightarrow> string \<Rightarrow> unit prog" where
  "render_pdf_body ev html_path pdf_path =
     bind (engine ev Launch) (\<lambda>_.
     bind (engine ev NewPage) (\<lambda>_.
     bind (engine_goto ev html_path) (\<lambda>page.
     bind (engine ev WaitForLoadState) (\<lambda>_.
     bind (engine_page_pdf ev page pdf_path) (\<lambda>_.
     engine ev Close)))))"

text \<open>
  \<open>with sync_playwright() as p: body\<close>. When \<open>__enter__\<close> raises, the body and
  \<open>__exit__\<close> do not run. Otherwise \<open>__exit__\<close> runs after the body, whether the body
  returned or raised; it does not swallow the body's exception, and an exception of its
  own is the one that propagates.
\<close>

definition with_sync_playwright :: "env \<Rightarrow> unit prog \<Rightarrow> unit prog" where
  "with_sync_playwright ev body =
     bind (engine ev Start) (\<lambda>_ w.
       case body w of
         (r, w') \<Rightarrow>
           (case engine ev Stop w' of
              (Inl e, w'') \<Rightarrow> (Inl e, w'')
            | (Inr _, w'') \<Rightarrow> (r, w'')))"

definition render_pdf :: "env \<Rightarrow> string \<Rightarrow> string \<Rightarrow> string \<Rightarrow> unit prog" where
  "render_pdf ev html_content html_path pdf_path =
     bind (write_file html_path html_content) (\<lambda>_.
     bind (with_sync_playwright ev (render_pdf_body ev html_path pdf_path)) (\<lambda>_ w.
       case lookup_file pdf_path w of
         None \<Rightarrow> (Inl (FileNotFoundError pdf_path), w)
       | Some bytes \<Rightarrow> (Inr (), print_line (PdfSaved pdf_path (length bytes)) w)))"

section \<open>main\<close>

definition main :: "env \<Rightarrow> config \<Rightarrow> string list \<Rightarrow> unit prog" where
  "main ev cfg argv =
     (let save_html = (''--html'' \<in> set argv) in
      bind mkdir_exist_ok (\<lambda>_.
      bind (\<lambda>w. (Inr (), print_line (Line ''Building AI Security Architecture Guide...'') w)) (\<lambda>_.
      bind (build_document ev cfg) (\<lambda>html.
      bind (render_pdf ev html HTML_FILE PDF_FILE) (\<lambda>_.
      bind (if \<not> save_html then unlink HTML_FILE True else (\<lambda>w. (Inr (), w))) (\<lambda>_.
      (\<lambda>w. (Inr (), print_line (Line ''\<newline>Done.'') w))))))))"

section \<open>Specification-level functions\<close>

text \<open>
  The checkbox substitution as the specification words it: one pass over the converted
  text in which every unchecked-box token becomes the unchecked widget, every checked-box
  token becomes the checked widget, and every other character is copied.
\<close>

function checkbox_spec :: "string \<Rightarrow> string" where
  "checkbox_spec s =
     (if s = [] then []
      else if prefix unchecked_token s then unchecked_widget @ checkbox_spec (drop 3 s)
      else if prefix checked_token s then checked_widget @ checkbox_spec (drop 3 s)
      else hd s # checkbox_spec (tl s))"
  by pat_completeness auto
termination
  by (relation "measure length") auto

declare checkbox_spec.simps [simp del]

text \<open>The outline entry of one (title, category-flag) pair.\<close>

definition toc_item :: "string \<times> bool \<Rightarrow> string" where
  \<open>toc_item entry =
     ''<li class="'' @ (if snd entry then ''chapter-entry'' else ''appendix-entry'') @ ''">'' @
     fst entry @ ''</li>''\<close>

text \<open>The texts of the listed files that are present, in list order.\<close>

definition text_of :: "directory \<Rightarrow> string \<Rightarrow> string option" where
  "text_of source_dir filename =
     (case source_dir filename of Some (Text t) \<Rightarrow> Some t | _ \<Rightarrow> None)"

definition present_texts :: "directory \<Rightarrow> string list \<Rightarrow> string list" where
  "present_texts source_dir filenames = List.map_filter (text_of source_dir) filenames"

text \<open>A listed file that exists can be read as text.\<close>

definition readable :: "directory \<Rightarrow> string list \<Rightarrow> bool" where
  "readable source_dir filenames = list_all (\<lambda>f. source_dir f \<noteq> Some Unreadable) filenames"

text \<open>The section of one file's text.\<close>

definition section_of :: "env \<Rightarrow> string \<Rightarrow> string" where
  "section_of ev md_text = chapter_div (md_to_html_convert ev md_text)"

text \<open>What \<open>build_document\<close> prints while it loads the sections.\<close>

definition sections_output :: "env \<Rightarrow> config \<Rightarrow> world \<Rightarrow> out_line list" where
  "sections_output ev cfg w =
     map warning_line (filter (\<lambda>f. content_dir w f = None) (chapters cfg)) @
     [Line (''  Loaded '' @ str_nat (length (present_texts (content_dir w) (chapters cfg))) @ '' chapters.'')] @
     map warning_line (filter (\<lambda>f. exercises_dir w f = None) (exercises cfg)) @
     [Line (''  Loaded '' @ str_nat (length (present_texts (exercises_dir w) (exercises cfg))) @ '' exercises.'')]"

text \<open>
  Line 138: \<open>all_sections\<close>, the sections of the document in order; \<open>None\<close> when
  loading them raises.
\<close>

definition sections_list :: "env \<Rightarrow> config \<Rightarrow> world \<Rightarrow> string list option" where
  "sections_list ev cfg w =
     (case fst (build_document_sections ev cfg w) of
        Inr (chapter_sections, exercise_sections) \<Rightarrow> Some (chapter_sections @ exercise_sections)
      | Inl e \<Rightarrow> None)"

text \<open>
  Line 111: \<open>source_dir / filename\<close> names the file \<open>resolve filename\<close> of the file
  store. Several names can denote one file: \<open>one.md\<close> and \<open>./one.md\<close>, a symbolic link,
  another spelling on a case-insensitive file system.
\<close>

definition dir_view :: "(string \<Rightarrow> string) \<Rightarrow> (string \<Rightarrow> entry option) \<Rightarrow> directory" where
  "dir_view resolve store filename = store (resolve filename)"

text \<open>A property of the world that a program keeps, whether it returns or raises.\<close>

definition preserves :: "(world \<Rightarrow> bool) \<Rightarrow> 'a prog \<Rightarrow> bool" where
  "preserves P m \<longleftrightarrow> (\<forall>w. P w \<longrightarrow> P (snd (m w)))"

definition file_is :: "string \<Rightarrow> string \<Rightarrow> world \<Rightarrow> bool" where
  "file_is path content w \<longleftrightarrow> lookup_file path w = Some content"

text \<open>The engine log is \<open>L\<close> followed by calls from \<open>A\<close>.\<close>

definition log_within :: "engine_call list \<Rightarrow> engine_call set \<Rightarrow> world \<Rightarrow> bool" where
  "log_within L A w \<longleftrightarrow> (\<exists>calls. engine_log w = L @ calls \<and> set calls \<subseteq> A)"

section \<open>Concrete inputs\<close>

text \<open>
  A stand-in for the Markdown library, an engine whose calls all succeed, and a small
  configuration and world, for evaluating the model.
\<close>

definition demo_markdown :: "string \<Rightarrow> string list \<Rightarrow> string" where
  "demo_markdown md_text extensions = ''<p>'' @ md_text @ ''</p>''"

definition demo_engine_ok :: "engine_call \<Rightarrow> bool" where
  "demo_engine_ok c = True"

definition demo_engine_pdf :: "string \<Rightarrow> string" where
  "demo_engine_pdf page = ''%PDF-'' @ page"

definition demo_env :: env where
  "demo_env =
     \<lparr>markdown = demo_markdown, engine_ok = demo_engine_ok, engine_pdf = demo_engine_pdf\<rparr>"

definition demo_content :: directory where
  "demo_content = [''one.md'' \<mapsto> Text ''# One [ ] [x]'', ''three.md'' \<mapsto> Text ''Three'']"

definition demo_exercises :: directory where
  "demo_exercises = [''ex.md'' \<mapsto> Text ''Exercise'']"

definition demo_config :: config where
  "demo_config =
     \<lparr>chapters = [''one.md'', ''two.md'', ''three.md''], exercises = [''ex.md''],
      cover = ''<div>cover</div>'', toc_entries = [(''One'', True), (''Notes'', False)]\<rparr>"

definition demo_world :: world where
  "demo_world =
     \<lparr>style_file = Some (Text ''body { }''), content_dir = demo_content,
      exercises_dir = demo_exercises, output_dir = Missing, stdout = [], engine_log = []\<rparr>"

definition demo_normalise :: "string \<Rightarrow> string" where
  "demo_normalise filename = (if take 2 filename = ''./'' then drop 2 filename else filename)"

definition demo_content_path :: "string \<Rightarrow> string" where
  "demo_content_path filename = ''content/'' @ demo_normalise filename"

definition demo_exercises_path :: "string \<Rightarrow> string" where
  "demo_exercises_path filename = ''exercises/'' @ demo_normalise filename"

definition demo_store :: "string \<Rightarrow> entry option" where
  "demo_store =
     [''content/one.md'' \<mapsto> Text ''# One [ ] [x]'', ''content/three.md'' \<mapsto> Text ''Three'',
      ''exercises/ex.md'' \<mapsto> Text ''Exercise'']"

definition demo_fs_world :: "(string \<Rightarrow> entry option) \<Rightarrow> world" where
  "demo_fs_world store =
     \<lparr>style_file = Some (Text ''body { }''), content_dir = dir_view demo_content_path store,
      exercises_dir = dir_view demo_exercises_path store, output_dir = Missing, stdout = [],
      engine_log = []\<rparr>"

definition demo_alias_config :: config where
  "demo_alias_config =
     \<lparr>chapters = [''one.md'', ''./one.md''], exercises = [''ex.md''],
      cover = ''<div>cover</div>'', toc_entries = [(''One'', True), (''Notes'', False)]\<rparr>"

definition demo_repeated_config :: config where
  "demo_repeated_config =
     \<lparr>chapters = [''one.md'', ''one.md''], exercises = [''ex.md''],
      cover = ''<div>cover</div>'', toc_entries = [(''One'', True), (''Notes'', False)]\<rparr>"

definition demo_merged_content :: directory where
  "demo_merged_content =
     [''one.md'' \<mapsto> Text ''# One [ ] [x]'', ''three.md'' \<mapsto> Text ''Three'',
      ''ex.md'' \<mapsto> Text ''Exercise'']"

definition demo_merged_config :: config where
  "demo_merged_config =
     \<lparr>chapters = [''one.md'', ''three.md'', ''ex.md''], exercises = [],
      cover = ''<div>cover</div>'', toc_entries = [(''One'', True), (''Notes'', False)]\<rparr>"

definition demo_merged_world :: world where
  "demo_merged_world =
     \<lparr>style_file = Some (Text ''body { }''), content_dir = demo_merged_content,
      exercises_dir = Map.empty, output_dir = Missing, stdout = [], engine_log = []\<rparr>"

definition demo_failing_ok :: "engine_call \<Rightarrow> bool" where
  "demo_failing_ok c = (c \<noteq> WaitForLoadState)"

definition demo_failing_env :: env where
  "demo_failing_env =
     \<lparr>markdown = demo_markdown, engine_ok = demo_failing_ok, engine_pdf = demo_engine_pdf\<rparr>"

definition demo_output_world :: world where
  "demo_output_world =
     \<lparr>style_file = Some (Text ''body { }''), content_dir = demo_content,
      exercises_dir = demo_exercises, output_dir = Directory Map.empty, stdout = [],
      engine_log = []\<rparr>"

section \<open>Properties of the string functions\<close>

lemma replace_scan_Nil [simp]: "replace_scan old new [] = []"
  by (simp add: replace_scan.simps)

lemma replace_scan_match:
  "old \<noteq> [] \<Longrightarrow> replace_scan old new (old @ s) = new @ replace_scan old new s"
  by (subst replace_scan.simps) simp

lemma replace_scan_skip:
  "\<not> prefix old (c # cs) \<Longrightarrow> replace_scan old new (c # cs) = c # replace_scan old new cs"
  by (subst replace_scan.simps) simp

lemma replace_scan_skip_hd:
  "old \<noteq> [] \<Longrightarrow> c \<noteq> hd old \<Longrightarrow> replace_scan old new (c # cs) = c # replace_scan old new cs"
  by (rule replace_scan_skip) (auto simp: prefix_def neq_Nil_conv)

lemma replace_scan_pass:
  "old \<noteq> [] \<Longrightarrow> hd old \<notin> set u \<Longrightarrow> replace_scan old new (u @ s) = u @ replace_scan old new s"
  by (induction u) (auto simp: replace_scan_skip_hd)


lemma replace_scan_absent: "\<not> sublist old s \<Longrightarrow> replace_scan old new s = s"
  by (induction s) (simp_all add: sublist_Cons_right replace_scan_skip)

lemma replace_scan_head:
  assumes "new \<noteq> []" "a \<noteq> hd new" "replace_scan old new t = a # r"
  shows "\<exists>ds. t = a # ds \<and> r = replace_scan old new ds"
proof (cases t)
  case Nil
  with assms show ?thesis by simp
next
  case (Cons d ds)
  show ?thesis
  proof (cases "old \<noteq> [] \<and> prefix old t")
    case True
    then have "replace_scan old new t = new @ replace_scan old new (drop (length old) t)"
      by (subst replace_scan.simps) (simp add: Cons)
    with assms show ?thesis by (cases new) auto
  next
    case False
    then have "replace_scan old new t = d # replace_scan old new ds"
      by (subst replace_scan.simps) (auto simp: Cons)
    with assms Cons show ?thesis by simp
  qed
qed

lemma tokens_nonempty: "unchecked_token \<noteq> []" "checked_token \<noteq> []"
  by (simp_all add: unchecked_token_def checked_token_def)

section \<open>The checkbox substitution\<close>

lemma checked_prefix_reflect:
  assumes "prefix checked_token (c # replace_scan unchecked_token unchecked_widget cs)"
  shows "prefix checked_token (c # cs)"
proof -
  let ?R = "replace_scan unchecked_token unchecked_widget"
  from assms obtain r where r: "c # ?R cs = checked_token @ r"
    by (auto simp: prefix_def)
  then have c: "c = CHR ''[''" and 1: "?R cs = CHR ''x'' # CHR '']'' # r"
    by (simp_all add: checked_token_def)
  from replace_scan_head [OF _ _ 1] obtain ds where ds: "cs = CHR ''x'' # ds" "CHR '']'' # r = ?R ds"
    by (auto simp: unchecked_widget_def)
  from replace_scan_head [OF _ _ ds(2) [symmetric]] obtain es where "ds = CHR '']'' # es"
    by (auto simp: unchecked_widget_def)
  with c ds show ?thesis by (simp add: checked_token_def)
qed

lemma checkboxes_refines_spec_aux:
  "replace_scan checked_token checked_widget (replace_scan unchecked_token unchecked_widget s)
     = checkbox_spec s"
proof (induction s rule: checkbox_spec.induct)
  case (1 s)
  let ?R1 = "replace_scan unchecked_token unchecked_widget"
  let ?R2 = "replace_scan checked_token checked_widget"
  show ?case
  proof (cases "s = []")
    case True
    then show ?thesis by (simp add: checkbox_spec.simps)
  next
    case ne: False
    show ?thesis
    proof (cases "prefix unchecked_token s")
      case True
      then have s: "s = unchecked_token @ drop 3 s"
        by (auto simp: prefix_def unchecked_token_def)
      have "?R1 s = unchecked_widget @ ?R1 (drop 3 s)"
        by (subst s, subst replace_scan_match) (simp_all add: unchecked_token_def)
      moreover have "?R2 (unchecked_widget @ ?R1 (drop 3 s)) = unchecked_widget @ ?R2 (?R1 (drop 3 s))"
        by (rule replace_scan_pass) (simp_all add: checked_token_def unchecked_widget_def)
      ultimately have "?R2 (?R1 s) = unchecked_widget @ ?R2 (?R1 (drop 3 s))"
        by simp
      with 1(1) [OF ne True] ne True show ?thesis
        by (subst checkbox_spec.simps) simp
    next
      case nu: False
      show ?thesis
      proof (cases "prefix checked_token s")
        case True
        then have s: "s = CHR ''['' # CHR ''x'' # CHR '']'' # drop 3 s"
          by (auto simp: prefix_def checked_token_def)
        have "?R1 s = checked_token @ ?R1 (drop 3 s)"
          by (subst s) (simp add: replace_scan_skip prefix_def unchecked_token_def checked_token_def)
        moreover have "?R2 (checked_token @ ?R1 (drop 3 s)) = checked_widget @ ?R2 (?R1 (drop 3 s))"
          by (rule replace_scan_match) (simp add: checked_token_def)
        ultimately have "?R2 (?R1 s) = checked_widget @ ?R2 (?R1 (drop 3 s))"
          by simp
        with 1(2) [OF ne nu True] ne nu True show ?thesis
          by (subst checkbox_spec.simps) simp
      next
        case nc: False
        from ne obtain c cs where s: "s = c # cs" by (cases s) auto
        have a: "?R1 s = c # ?R1 cs"
          using nu by (simp add: s replace_scan_skip)
        have "\<not> prefix checked_token (c # ?R1 cs)"
          using nc checked_prefix_reflect s by blast
        then have "?R2 (?R1 s) = c # ?R2 (?R1 cs)"
          by (simp add: a replace_scan_skip)
        with 1(3) [OF ne nu nc] ne nu nc show ?thesis
          by (subst checkbox_spec.simps) (simp add: s)
      qed
    qed
  qed
qed

lemma checkboxes_eq_spec: "checkboxes html = checkbox_spec html"
  by (simp add: checkboxes_def str_replace_def checkboxes_refines_spec_aux tokens_nonempty)

lemma checkboxes_absent:
  "\<not> sublist unchecked_token html \<Longrightarrow> \<not> sublist checked_token html \<Longrightarrow> checkboxes html = html"
  by (simp add: checkboxes_def str_replace_def replace_scan_absent tokens_nonempty)

lemma checkbox_spec_Nil [simp]: "checkbox_spec [] = []"
  by (simp add: checkbox_spec.simps)

lemma checkbox_spec_unchecked:
  "checkbox_spec (unchecked_token @ s) = unchecked_widget @ checkbox_spec s"
  by (subst checkbox_spec.simps) (simp add: unchecked_token_def)

lemma checkbox_spec_checked:
  "checkbox_spec (checked_token @ s) = checked_widget @ checkbox_spec s"
  by (subst checkbox_spec.simps) (simp add: checked_token_def unchecked_token_def)

lemma checkbox_spec_other:
  "\<not> prefix unchecked_token (c # cs) \<Longrightarrow> \<not> prefix checked_token (c # cs) \<Longrightarrow>
   checkbox_spec (c # cs) = c # checkbox_spec cs"
  by (subst checkbox_spec.simps) simp

lemma prefix_token_split:
  "prefix unchecked_token s \<Longrightarrow> s = unchecked_token @ drop 3 s"
  "prefix checked_token s \<Longrightarrow> s = checked_token @ drop 3 s"
  by (auto simp: prefix_def unchecked_token_def checked_token_def)












lemma token_prefix_before_bracket:
  assumes "prefix [x, y, z] (c # cs @ CHR ''['' # rest)" "y \<noteq> CHR ''[''" "z \<noteq> CHR ''[''"
  shows "prefix [x, y, z] (c # cs)"
proof (cases cs)
  case Nil
  with assms show ?thesis by simp
next
  case (Cons d ds)
  with assms show ?thesis by (cases ds) simp_all
qed

lemma checkbox_spec_context:
  assumes v: "\<And>b. checkbox_spec (CHR ''['' # v @ b) = CHR ''['' # v @ checkbox_spec b"
  shows "checkbox_spec (a @ CHR ''['' # v @ b) = checkbox_spec a @ CHR ''['' # v @ checkbox_spec b"
proof (induction a rule: checkbox_spec.induct)
  case (1 a)
  show ?case
  proof (cases "a = []")
    case True
    then show ?thesis by (simp add: v)
  next
    case ne: False
    show ?thesis
    proof (cases "prefix unchecked_token a")
      case True
      from prefix_token_split(1) [OF True] have
        "a @ CHR ''['' # v @ b = unchecked_token @ (drop 3 a @ CHR ''['' # v @ b)"
        by simp
      then have "checkbox_spec (a @ CHR ''['' # v @ b) =
          unchecked_widget @ checkbox_spec (drop 3 a @ CHR ''['' # v @ b)"
        by (simp only: checkbox_spec_unchecked)
      moreover have "checkbox_spec a = unchecked_widget @ checkbox_spec (drop 3 a)"
        using prefix_token_split(1) [OF True] checkbox_spec_unchecked [of "drop 3 a"] by simp
      ultimately show ?thesis using 1(1) [OF ne True] by simp
    next
      case nu: False
      show ?thesis
      proof (cases "prefix checked_token a")
        case True
        from prefix_token_split(2) [OF True] have
          "a @ CHR ''['' # v @ b = checked_token @ (drop 3 a @ CHR ''['' # v @ b)"
          by simp
        then have "checkbox_spec (a @ CHR ''['' # v @ b) =
            checked_widget @ checkbox_spec (drop 3 a @ CHR ''['' # v @ b)"
          by (simp only: checkbox_spec_checked)
        moreover have "checkbox_spec a = checked_widget @ checkbox_spec (drop 3 a)"
          using prefix_token_split(2) [OF True] checkbox_spec_checked [of "drop 3 a"] by simp
        ultimately show ?thesis using 1(2) [OF ne nu True] by simp
      next
        case nc: False
        from ne obtain c cs where a: "a = c # cs" by (cases a) auto
        have 1: "\<not> prefix unchecked_token (c # cs @ CHR ''['' # v @ b)"
          using nu token_prefix_before_bracket [of "CHR ''[''" "CHR '' ''" "CHR '']''" c cs "v @ b"]
          by (auto simp: a unchecked_token_def)
        have 2: "\<not> prefix checked_token (c # cs @ CHR ''['' # v @ b)"
          using nc token_prefix_before_bracket [of "CHR ''[''" "CHR ''x''" "CHR '']''" c cs "v @ b"]
          by (auto simp: a checked_token_def)
        have "checkbox_spec (a @ CHR ''['' # v @ b) = c # checkbox_spec (cs @ CHR ''['' # v @ b)"
          using checkbox_spec_other [OF 1 2] by (simp add: a)
        moreover have "checkbox_spec a = c # checkbox_spec cs"
          using nu nc by (simp add: a checkbox_spec_other)
        ultimately show ?thesis using "1.IH"(3) [OF ne nu nc] by (simp add: a)
      qed
    qed
  qed
qed

lemma checkbox_spec_variants:
  "checkbox_spec (''[X]'' @ b) = ''[X]'' @ checkbox_spec b"
  "checkbox_spec (''[]'' @ b) = ''[]'' @ checkbox_spec b"
  "checkbox_spec (''[  ]'' @ b) = ''[  ]'' @ checkbox_spec b"
  by (simp_all add: checkbox_spec_other unchecked_token_def checked_token_def)

lemma checkboxes_context:
  "checkboxes (a @ ''[X]'' @ b) = checkboxes a @ ''[X]'' @ checkboxes b"
  "checkboxes (a @ ''[]'' @ b) = checkboxes a @ ''[]'' @ checkboxes b"
  "checkboxes (a @ ''[  ]'' @ b) = checkboxes a @ ''[  ]'' @ checkboxes b"
  using checkbox_spec_context [of "''X]''" a b] checkbox_spec_context [of "'']''" a b]
    checkbox_spec_context [of "''  ]''" a b] checkbox_spec_variants
  by (simp_all add: checkboxes_eq_spec)

text \<open>
  Claim C9. The substitution replaces the exact tokens and nothing else. Read from the
  left, \<open>checkboxes\<close> turns a leading \<open>[ ]\<close> into the unchecked widget and a leading
  \<open>[x]\<close> into the checked widget, and copies a character at which neither token
  starts: these equations fix its result on every text. The variants \<open>[X]\<close>,
  \<open>[]\<close> and \<open>[  ]\<close> come out as they went in wherever they stand, whatever
  surrounds them, and a text without an exact token is returned unchanged.
\<close>

theorem checkbox_tokens_exact:
  "checkboxes [] = []
   \<and> checkboxes (''[ ]'' @ s) = unchecked_widget @ checkboxes s
   \<and> checkboxes (''[x]'' @ s) = checked_widget @ checkboxes s
   \<and> (\<not> prefix ''[ ]'' (c # s) \<and> \<not> prefix ''[x]'' (c # s) \<longrightarrow>
        checkboxes (c # s) = c # checkboxes s)
   \<and> checkboxes (a @ ''[X]'' @ b) = checkboxes a @ ''[X]'' @ checkboxes b
   \<and> checkboxes (a @ ''[]'' @ b) = checkboxes a @ ''[]'' @ checkboxes b
   \<and> checkboxes (a @ ''[  ]'' @ b) = checkboxes a @ ''[  ]'' @ checkboxes b
   \<and> (\<not> sublist ''[ ]'' html \<and> \<not> sublist ''[x]'' html \<longrightarrow> checkboxes html = html)"
proof -
  have 1: "checkboxes (''[ ]'' @ s) = unchecked_widget @ checkboxes s"
    using checkbox_spec_unchecked [of s] by (simp add: checkboxes_eq_spec unchecked_token_def)
  have 2: "checkboxes (''[x]'' @ s) = checked_widget @ checkboxes s"
    using checkbox_spec_checked [of s] by (simp add: checkboxes_eq_spec checked_token_def)
  have 3: "\<not> prefix ''[ ]'' (c # s) \<and> \<not> prefix ''[x]'' (c # s) \<longrightarrow>
        checkboxes (c # s) = c # checkboxes s"
    using checkbox_spec_other [of c s]
    by (simp add: checkboxes_eq_spec unchecked_token_def checked_token_def)
  have 4: "\<not> sublist ''[ ]'' html \<and> \<not> sublist ''[x]'' html \<longrightarrow> checkboxes html = html"
    using checkboxes_absent [of html] by (simp add: unchecked_token_def checked_token_def)
  have 0: "checkboxes [] = []"
    by (simp add: checkboxes_eq_spec)
  from 0 1 2 3 4 checkboxes_context [of a b] show ?thesis
    by (intro conjI)
qed

theorem checkbox_tokens_exact_witness:
  "\<not> prefix ''[ ]'' ''[X] [ ]'' \<and> \<not> prefix ''[x]'' ''[X] [ ]''
   \<and> \<not> sublist ''[ ]'' ''see [X], [] and [  ]''
   \<and> \<not> sublist ''[x]'' ''see [X], [] and [  ]''
   \<and> checkboxes ''see [X], [] and [  ]'' = ''see [X], [] and [  ]''
   \<and> checkboxes ''[x] [X] [] [  ] [ ]'' =
       checked_widget @ '' [X] [] [  ] '' @ unchecked_widget"
proof -
  have p: "\<not> prefix ''[ ]'' ''[X] [ ]''" "\<not> prefix ''[x]'' ''[X] [ ]''"
    by simp_all
  have n: "\<not> sublist ''[ ]'' ''see [X], [] and [  ]''"
    "\<not> sublist ''[x]'' ''see [X], [] and [  ]''"
    by code_simp+
  have e: "checkboxes ''[x] '' = checked_widget @ '' ''" "checkboxes '' '' = '' ''"
    "checkboxes '' [ ]'' = '' '' @ unchecked_widget"
    by code_simp+
  have "checkboxes ''[x] [X] [] [  ] [ ]'' =
      checkboxes ''[x] '' @ ''[X]'' @ checkboxes ('' '' @ ''[]'' @ '' [  ] [ ]'')"
    using checkbox_tokens_exact [of _ _ "''[x] ''" "'' [] [  ] [ ]''"] by simp
  also have "checkboxes ('' '' @ ''[]'' @ '' [  ] [ ]'') =
      checkboxes '' '' @ ''[]'' @ checkboxes ('' '' @ ''[  ]'' @ '' [ ]'')"
    using checkbox_tokens_exact [of _ _ "'' ''" "'' [  ] [ ]''"] by simp
  also have "checkboxes ('' '' @ ''[  ]'' @ '' [ ]'') =
      checkboxes '' '' @ ''[  ]'' @ checkboxes '' [ ]''"
    using checkbox_tokens_exact [of _ _ "'' ''" "'' [ ]''"] by simp
  finally have "checkboxes ''[x] [X] [] [  ] [ ]'' =
      checked_widget @ '' [X] [] [  ] '' @ unchecked_widget"
    by (simp add: e)
  with p n checkbox_tokens_exact [of _ _ _ _ "''see [X], [] and [  ]''"] show ?thesis
    by blast
qed

section \<open>The assembler, the renderer and the entry point\<close>

lemma build_toc_items_eq: "build_toc_items entries items = items @ map toc_item entries"
  by (induction entries arbitrary: items) (auto simp: toc_item_def)

lemma present_texts_simps:
  "present_texts d [] = []"
  "d f = None \<Longrightarrow> present_texts d (f # fs) = present_texts d fs"
  "d f = Some Unreadable \<Longrightarrow> present_texts d (f # fs) = present_texts d fs"
  "d f = Some (Text t) \<Longrightarrow> present_texts d (f # fs) = t # present_texts d fs"
  by (simp_all add: present_texts_def text_of_def map_filter_simps)

lemma md_to_html_loop_readable:
  "readable d fs \<Longrightarrow>
   md_to_html_loop ev d fs secs w =
     (Inr (secs @ map (section_of ev) (present_texts d fs)),
      w\<lparr>stdout := stdout w @ map warning_line (filter (\<lambda>f. d f = None) fs)\<rparr>)"
proof (induction fs arbitrary: secs w)
  case Nil
  then show ?case by (simp add: present_texts_simps)
next
  case (Cons f fs)
  then have r: "readable d fs" and nf: "d f \<noteq> Some Unreadable"
    by (simp_all add: readable_def)
  show ?case
  proof (cases "d f")
    case None
    then show ?thesis
      by (simp add: Cons.IH [OF r] present_texts_simps print_line_def)
  next
    case (Some e)
    with nf obtain t where "d f = Some (Text t)" by (cases e) auto
    then show ?thesis
      by (simp add: Cons.IH [OF r] present_texts_simps section_of_def)
  qed
qed

lemma md_to_html_loop_Inl:
  "fst (md_to_html_loop ev d fs secs w) = Inl e \<Longrightarrow>
   \<exists>f\<in>set fs. d f = Some Unreadable \<and> e = ReadError f"
proof (induction fs arbitrary: secs w)
  case Nil
  then show ?case by simp
next
  case (Cons f fs)
  show ?case
  proof (cases "d f")
    case None
    with Cons show ?thesis by auto
  next
    case (Some x)
    with Cons show ?thesis by (cases x) auto
  qed
qed

lemma md_to_html_loop_Inr:
  "fst (md_to_html_loop ev d fs secs w) = Inr r \<Longrightarrow> readable d fs"
proof (induction fs arbitrary: secs w)
  case Nil
  then show ?case by (simp add: readable_def)
next
  case (Cons f fs)
  show ?case
  proof (cases "d f")
    case None
    with Cons show ?thesis by (auto simp: readable_def)
  next
    case (Some x)
    with Cons show ?thesis by (cases x) (auto simp: readable_def)
  qed
qed

lemma md_to_html_readable:
  "readable d fs \<Longrightarrow>
   md_to_html ev d fs w =
     (Inr (map (section_of ev) (present_texts d fs)),
      w\<lparr>stdout := stdout w @ map warning_line (filter (\<lambda>f. d f = None) fs)\<rparr>)"
  by (simp add: md_to_html_def md_to_html_loop_readable)

lemma md_to_html_loop_frame:
  "\<exists>out. snd (md_to_html_loop ev d fs secs w) = w\<lparr>stdout := stdout w @ out\<rparr>"
proof (induction fs arbitrary: secs w)
  case Nil
  show ?case by (rule exI [of _ "[]"]) simp
next
  case (Cons f fs)
  show ?case
  proof (cases "d f")
    case None
    from Cons [of secs "print_line (warning_line f) w"] obtain out where
      "snd (md_to_html_loop ev d fs secs (print_line (warning_line f) w)) =
         print_line (warning_line f) w\<lparr>stdout := stdout (print_line (warning_line f) w) @ out\<rparr>"
      by blast
    with None have "snd (md_to_html_loop ev d (f # fs) secs w) = w\<lparr>stdout := stdout w @ (warning_line f # out)\<rparr>"
      by (simp add: print_line_def)
    then show ?thesis by (rule exI)
  next
    case (Some x)
    show ?thesis
    proof (cases x)
      case (Text t)
      with Some Cons show ?thesis by simp
    next
      case Unreadable
      with Some show ?thesis by (intro exI [of _ "[]"]) simp
    qed
  qed
qed

lemma bind_Inr: "m w = (Inr x, w') \<Longrightarrow> bind m f w = f x w'"
  by (simp add: bind_def)

lemma bind_Inl: "m w = (Inl e, w') \<Longrightarrow> bind m f w = (Inl e, w')"
  by (simp add: bind_def)

lemma md_to_html_loop_result_indep:
  "fst (md_to_html_loop ev d fs secs w) = fst (md_to_html_loop ev d fs secs w')"
proof (induction fs arbitrary: secs w w')
  case Nil
  show ?case by simp
next
  case (Cons f fs)
  show ?case
  proof (cases "d f")
    case None
    with Cons show ?thesis by simp
  next
    case (Some x)
    with Cons show ?thesis by (cases x) simp_all
  qed
qed

lemma build_document_sections_readable:
  assumes "readable (content_dir w) (chapters cfg)" "readable (exercises_dir w) (exercises cfg)"
  shows "build_document_sections ev cfg w =
     (Inr (map (section_of ev) (present_texts (content_dir w) (chapters cfg)),
           map (section_of ev) (present_texts (exercises_dir w) (exercises cfg))),
      w\<lparr>stdout := stdout w @ sections_output ev cfg w\<rparr>)"
  using assms
  by (simp add: build_document_sections_def bind_def md_to_html_readable print_line_def
      sections_output_def)

lemma build_document_sections_Inr:
  assumes "fst (build_document_sections ev cfg w) = Inr r"
  shows "readable (content_dir w) (chapters cfg) \<and> readable (exercises_dir w) (exercises cfg)"
proof -
  have 1: "readable (content_dir w) (chapters cfg)"
  proof (rule ccontr)
    assume "\<not> readable (content_dir w) (chapters cfg)"
    then obtain e where "fst (md_to_html ev (content_dir w) (chapters cfg) w) = Inl e"
      using md_to_html_loop_Inr [of ev "content_dir w" "chapters cfg" "[]" w]
      by (cases "fst (md_to_html ev (content_dir w) (chapters cfg) w)") (auto simp: md_to_html_def)
    then have "\<exists>w'. md_to_html ev (content_dir w) (chapters cfg) w = (Inl e, w')"
      by (cases "md_to_html ev (content_dir w) (chapters cfg) w") auto
    then have "fst (build_document_sections ev cfg w) = Inl e"
      by (auto simp: build_document_sections_def bind_def)
    with assms show False by simp
  qed
  let ?w = "print_line (Line (''  Loaded '' @ str_nat (length (present_texts (content_dir w) (chapters cfg))) @ '' chapters.''))
       (w\<lparr>stdout := stdout w @ map warning_line (filter (\<lambda>f. content_dir w f = None) (chapters cfg))\<rparr>)"
  have 2: "readable (exercises_dir w) (exercises cfg)"
  proof (rule ccontr)
    assume "\<not> readable (exercises_dir w) (exercises cfg)"
    then obtain e where "fst (md_to_html ev (exercises_dir w) (exercises cfg) ?w) = Inl e"
      using md_to_html_loop_Inr [of ev "exercises_dir w" "exercises cfg" "[]" ?w]
      by (cases "fst (md_to_html ev (exercises_dir w) (exercises cfg) ?w)") (auto simp: md_to_html_def)
    then have "\<exists>w'. md_to_html ev (exercises_dir w) (exercises cfg) ?w = (Inl e, w')"
      by (cases "md_to_html ev (exercises_dir w) (exercises cfg) ?w") auto
    then have "fst (build_document_sections ev cfg w) = Inl e"
      using 1 by (auto simp: build_document_sections_def bind_def md_to_html_readable print_line_def)
    with assms show False by simp
  qed
  from 1 2 show ?thesis by simp
qed

lemma build_document_readable:
  assumes "style_file w = Some (Text css)"
    and "readable (content_dir w) (chapters cfg)" "readable (exercises_dir w) (exercises cfg)"
  shows "build_document ev cfg w =
     (Inr (document_text css (cover cfg) (build_toc (toc_entries cfg))
             (map (section_of ev) (present_texts (content_dir w) (chapters cfg)) @
              map (section_of ev) (present_texts (exercises_dir w) (exercises cfg)))),
      w\<lparr>stdout := stdout w @ sections_output ev cfg w\<rparr>)"
  using assms
  by (simp add: build_document_def bind_def read_text_def build_document_sections_readable)

lemma build_document_Inr:
  assumes "fst (build_document ev cfg w) = Inr doc"
  shows "\<exists>css. style_file w = Some (Text css) \<and> readable (content_dir w) (chapters cfg)
           \<and> readable (exercises_dir w) (exercises cfg)"
proof -
  from assms obtain css where css: "style_file w = Some (Text css)"
    by (cases "style_file w" rule: option.exhaust; cases "the (style_file w)")
       (auto simp: build_document_def bind_def read_text_def)
  with assms obtain r where "fst (build_document_sections ev cfg w) = Inr r"
    by (cases "build_document_sections ev cfg w"; cases "fst (build_document_sections ev cfg w)")
       (auto simp: build_document_def bind_def read_text_def)
  from build_document_sections_Inr [OF this] css show ?thesis by simp
qed

lemma build_document_style_error:
  assumes "style_file w = None \<or> style_file w = Some Unreadable"
  shows "build_document ev cfg w =
     (Inl (if style_file w = None then FileNotFoundError STYLE_FILE else ReadError STYLE_FILE), w)"
  using assms by (auto simp: build_document_def bind_def read_text_def)

lemma text_of_upd_other: "g \<noteq> f \<Longrightarrow> text_of (d(f := x)) g = text_of d g"
  by (simp add: text_of_def)

lemma present_texts_Cons:
  "present_texts d (g # fs) =
     (case text_of d g of None \<Rightarrow> present_texts d fs | Some t \<Rightarrow> t # present_texts d fs)"
  by (simp add: present_texts_def map_filter_simps split: option.split)

lemma present_texts_upd_other:
  "f \<notin> set fs \<Longrightarrow> present_texts (d(f := x)) fs = present_texts d fs"
  by (induction fs)
     (auto simp: present_texts_Cons text_of_upd_other present_texts_simps split: option.split)

lemma readable_remove: "readable d fs \<Longrightarrow> readable (d(f := None)) fs"
  by (induction fs) (auto simp: readable_def)

lemma present_texts_remove:
  assumes "distinct fs" "f \<in> set fs" "d f = Some (Text t)"
  shows "\<exists>i<length (present_texts d fs).
           present_texts (d(f := None)) fs =
             take i (present_texts d fs) @ drop (Suc i) (present_texts d fs)"
  using assms
proof (induction fs)
  case Nil
  then show ?case by simp
next
  case (Cons g fs)
  show ?case
  proof (cases "g = f")
    case True
    with Cons.prems have "f \<notin> set fs" by simp
    then have "present_texts (d(f := None)) fs = present_texts d fs"
      by (rule present_texts_upd_other)
    with True Cons.prems(3) have
      "present_texts d (g # fs) = t # present_texts d fs"
      "present_texts (d(f := None)) (g # fs) = present_texts d fs"
      by (simp_all add: present_texts_simps)
    then have "0 < length (present_texts d (g # fs)) \<and>
        present_texts (d(f := None)) (g # fs) =
          take 0 (present_texts d (g # fs)) @ drop (Suc 0) (present_texts d (g # fs))"
      by simp
    then show ?thesis by blast
  next
    case False
    with Cons.prems have "distinct fs" "f \<in> set fs" by auto
    from Cons.IH [OF this Cons.prems(3)] obtain i where i: "i < length (present_texts d fs)"
      "present_texts (d(f := None)) fs = take i (present_texts d fs) @ drop (Suc i) (present_texts d fs)"
      by blast
    show ?thesis
    proof (cases "text_of d g")
      case None
      with False have "present_texts d (g # fs) = present_texts d fs"
        "present_texts (d(f := None)) (g # fs) = present_texts (d(f := None)) fs"
        by (simp_all add: present_texts_Cons text_of_upd_other)
      with i have "i < length (present_texts d (g # fs)) \<and>
        present_texts (d(f := None)) (g # fs) =
          take i (present_texts d (g # fs)) @ drop (Suc i) (present_texts d (g # fs))"
        by simp
      then show ?thesis by blast
    next
      case (Some u)
      with False have "present_texts d (g # fs) = u # present_texts d fs"
        "present_texts (d(f := None)) (g # fs) = u # present_texts (d(f := None)) fs"
        by (simp_all add: present_texts_Cons text_of_upd_other)
      with i have "Suc i < length (present_texts d (g # fs)) \<and>
        present_texts (d(f := None)) (g # fs) =
          take (Suc i) (present_texts d (g # fs)) @ drop (Suc (Suc i)) (present_texts d (g # fs))"
        by simp
      then show ?thesis by blast
    qed
  qed
qed

lemma length_present_texts_distinct:
  "distinct fs \<Longrightarrow> length (present_texts d fs) = card {f \<in> set fs. \<exists>t. d f = Some (Text t)}"
proof (induction fs)
  case Nil
  then show ?case by (simp add: present_texts_simps)
next
  case (Cons g fs)
  then have IH: "length (present_texts d fs) = card {f \<in> set fs. \<exists>t. d f = Some (Text t)}"
    and g: "g \<notin> set fs" by simp_all
  show ?case
  proof (cases "\<exists>t. d g = Some (Text t)")
    case True
    then have "{f \<in> set (g # fs). \<exists>t. d f = Some (Text t)} = insert g {f \<in> set fs. \<exists>t. d f = Some (Text t)}"
      by auto
    with True g IH show ?thesis by (auto simp: present_texts_simps)
  next
    case False
    then have "{f \<in> set (g # fs). \<exists>t. d f = Some (Text t)} = {f \<in> set fs. \<exists>t. d f = Some (Text t)}"
      by auto
    moreover from False have "present_texts d (g # fs) = present_texts d fs"
      by (auto simp: present_texts_def text_of_def map_filter_simps split: option.splits entry.splits)
    ultimately show ?thesis using IH by simp
  qed
qed

lemma sections_list_readable:
  assumes "readable (content_dir w) (chapters cfg)" "readable (exercises_dir w) (exercises cfg)"
  shows "sections_list ev cfg w =
     Some (map (section_of ev) (present_texts (content_dir w) (chapters cfg)) @
           map (section_of ev) (present_texts (exercises_dir w) (exercises cfg)))"
  using assms by (simp add: sections_list_def build_document_sections_readable)

lemma text_of_view: "text_of (dir_view r s) f = text_of s (r f)"
  by (simp add: text_of_def dir_view_def)

lemma present_texts_view: "present_texts (dir_view r s) fs = present_texts s (map r fs)"
  by (induction fs)
     (simp_all add: present_texts_Cons text_of_view present_texts_simps split: option.split)

lemma readable_view: "readable (dir_view r s) fs = readable s (map r fs)"
  by (induction fs) (simp_all add: readable_def dir_view_def)

lemma present_iff_text:
  assumes "readable d fs" "f \<in> set fs"
  shows "d f \<noteq> None \<longleftrightarrow> (\<exists>t. d f = Some (Text t))"
proof -
  from assms have "d f \<noteq> Some Unreadable" by (auto simp: readable_def list_all_iff)
  then show ?thesis by (cases "d f"; cases "the (d f)") auto
qed

lemma card_present:
  assumes "readable d fs"
  shows "card {f \<in> set fs. d f \<noteq> None} = card {f \<in> set fs. \<exists>t. d f = Some (Text t)}"
proof -
  have "{f \<in> set fs. d f \<noteq> None} = {f \<in> set fs. \<exists>t. d f = Some (Text t)}"
    using present_iff_text [OF assms] by blast
  then show ?thesis by simp
qed

lemma sections_list_view:
  assumes "content_dir w = dir_view rc store" "exercises_dir w = dir_view re store"
    and "readable store (map rc (chapters cfg))" "readable store (map re (exercises cfg))"
  shows "sections_list ev cfg w =
     Some (map (section_of ev) (present_texts store (map rc (chapters cfg))) @
           map (section_of ev) (present_texts store (map re (exercises cfg))))"
  using assms sections_list_readable [of w cfg ev]
  by (simp add: readable_view present_texts_view)

lemma sections_list_remove_file:
  assumes v: "content_dir w = dir_view rc store" "exercises_dir w = dir_view re store"
    and d: "distinct (map rc (chapters cfg) @ map re (exercises cfg))"
    and r: "readable store (map rc (chapters cfg))" "readable store (map re (exercises cfg))"
    and p: "p \<in> rc ` set (chapters cfg) \<union> re ` set (exercises cfg)" "store p \<noteq> None"
  shows "\<exists>S i. sections_list ev cfg w = Some S \<and> i < length S \<and>
           sections_list ev cfg
             (w\<lparr>content_dir := dir_view rc (store(p := None)),
                exercises_dir := dir_view re (store(p := None))\<rparr>)
             = Some (take i S @ drop (Suc i) S)"
proof -
  let ?C = "map rc (chapters cfg)" and ?E = "map re (exercises cfg)"
  let ?PC = "present_texts store ?C" and ?PE = "present_texts store ?E"
  let ?s' = "store(p := None)"
  let ?w' = "w\<lparr>content_dir := dir_view rc ?s', exercises_dir := dir_view re ?s'\<rparr>"
  let ?S = "map (section_of ev) ?PC @ map (section_of ev) ?PE"
  from d have dC: "distinct ?C" and dE: "distinct ?E" and disj: "set ?C \<inter> set ?E = {}"
    by simp_all
  have S: "sections_list ev cfg w = Some ?S"
    using v r by (rule sections_list_view)
  have S': "sections_list ev cfg ?w' =
      Some (map (section_of ev) (present_texts ?s' ?C) @ map (section_of ev) (present_texts ?s' ?E))"
    by (rule sections_list_view) (simp_all add: readable_remove r)
  show ?thesis
  proof (cases "p \<in> set ?C")
    case True
    with disj have "p \<notin> set ?E" by blast
    then have E: "present_texts ?s' ?E = ?PE"
      by (rule present_texts_upd_other)
    from present_iff_text [OF r(1) True] p(2) obtain t where "store p = Some (Text t)"
      by blast
    from present_texts_remove [where d = store, OF dC True this] obtain i where i: "i < length ?PC"
      "present_texts ?s' ?C = take i ?PC @ drop (Suc i) ?PC"
      by blast
    have "map (section_of ev) (take i ?PC @ drop (Suc i) ?PC) @ map (section_of ev) ?PE
        = take i ?S @ drop (Suc i) ?S"
      using i(1) by (simp add: take_map drop_map)
    with S' E i(2) have R: "sections_list ev cfg ?w' = Some (take i ?S @ drop (Suc i) ?S)"
      by simp
    have L: "i < length ?S" using i(1) by simp
    from S L R show ?thesis by blast
  next
    case False
    with p(1) have pE: "p \<in> set ?E" by auto
    from False have C: "present_texts ?s' ?C = ?PC"
      by (rule present_texts_upd_other)
    from present_iff_text [OF r(2) pE] p(2) obtain t where "store p = Some (Text t)"
      by blast
    from present_texts_remove [where d = store, OF dE pE this] obtain i where i: "i < length ?PE"
      "present_texts ?s' ?E = take i ?PE @ drop (Suc i) ?PE"
      by blast
    have "map (section_of ev) ?PC @ map (section_of ev) (take i ?PE @ drop (Suc i) ?PE)
        = take (length ?PC + i) ?S @ drop (Suc (length ?PC + i)) ?S"
      using i(1) by (simp add: take_map drop_map)
    with S' C i(2) have R: "sections_list ev cfg ?w' =
        Some (take (length ?PC + i) ?S @ drop (Suc (length ?PC + i)) ?S)"
      by simp
    have L: "length ?PC + i < length ?S" using i(1) by simp
    from S L R show ?thesis by blast
  qed
qed

text \<open>
  Claim C1, as amended. The two directories are views of one file store:
  \<open>source_dir / filename\<close> names the file \<open>resolve filename\<close> of the store. For
  configured lists in which no two entries denote the same file, and whose present files
  can be read as text: the assembled section list holds the sections of the present
  primary files in configured order, followed by those of the present supplementary
  files in configured order; each list yields as many sections as it has present files;
  and removing one present configured file from the store removes exactly one section
  and leaves the others in their order.
\<close>

theorem sections_follow_configuration:
  assumes "content_dir w = dir_view rc store" "exercises_dir w = dir_view re store"
    and "distinct (map rc (chapters cfg) @ map re (exercises cfg))"
    and "readable (content_dir w) (chapters cfg)" "readable (exercises_dir w) (exercises cfg)"
  shows "sections_list ev cfg w =
       Some (map (section_of ev) (present_texts (content_dir w) (chapters cfg)) @
             map (section_of ev) (present_texts (exercises_dir w) (exercises cfg)))
     \<and> length (present_texts (content_dir w) (chapters cfg)) =
         card {p \<in> rc ` set (chapters cfg). store p \<noteq> None}
     \<and> length (present_texts (exercises_dir w) (exercises cfg)) =
         card {p \<in> re ` set (exercises cfg). store p \<noteq> None}
     \<and> (\<forall>p\<in>rc ` set (chapters cfg) \<union> re ` set (exercises cfg). store p \<noteq> None \<longrightarrow>
          (\<exists>S i. sections_list ev cfg w = Some S \<and> i < length S \<and>
             sections_list ev cfg
               (w\<lparr>content_dir := dir_view rc (store(p := None)),
                  exercises_dir := dir_view re (store(p := None))\<rparr>)
               = Some (take i S @ drop (Suc i) S)))"
proof -
  from assms(3) have dC: "distinct (map rc (chapters cfg))"
    and dE: "distinct (map re (exercises cfg))" by simp_all
  from assms(1,2,4,5) have r: "readable store (map rc (chapters cfg))"
    "readable store (map re (exercises cfg))"
    by (simp_all add: readable_view)
  have 1: "sections_list ev cfg w =
       Some (map (section_of ev) (present_texts (content_dir w) (chapters cfg)) @
             map (section_of ev) (present_texts (exercises_dir w) (exercises cfg)))"
    using assms(4,5) by (rule sections_list_readable)
  have 2: "length (present_texts (content_dir w) (chapters cfg)) =
         card {p \<in> rc ` set (chapters cfg). store p \<noteq> None}"
    using length_present_texts_distinct [OF dC, of store] card_present [OF r(1)]
    by (simp add: assms(1) present_texts_view)
  have 3: "length (present_texts (exercises_dir w) (exercises cfg)) =
         card {p \<in> re ` set (exercises cfg). store p \<noteq> None}"
    using length_present_texts_distinct [OF dE, of store] card_present [OF r(2)]
    by (simp add: assms(2) present_texts_view)
  have 4: "\<forall>p\<in>rc ` set (chapters cfg) \<union> re ` set (exercises cfg). store p \<noteq> None \<longrightarrow>
          (\<exists>S i. sections_list ev cfg w = Some S \<and> i < length S \<and>
             sections_list ev cfg
               (w\<lparr>content_dir := dir_view rc (store(p := None)),
                  exercises_dir := dir_view re (store(p := None))\<rparr>)
               = Some (take i S @ drop (Suc i) S))"
    using sections_list_remove_file [OF assms(1,2,3) r] by blast
  from 1 2 3 4 show ?thesis by (intro conjI)
qed

lemma demo_readable:
  "readable (content_dir demo_world) (chapters demo_config)"
  "readable (exercises_dir demo_world) (exercises demo_config)"
  by (simp_all add: readable_def demo_world_def demo_config_def demo_content_def
      demo_exercises_def)

lemma demo_present_texts:
  "present_texts (content_dir demo_world) (chapters demo_config) = [''# One [ ] [x]'', ''Three'']"
  "present_texts (exercises_dir demo_world) (exercises demo_config) = [''Exercise'']"
  by (simp_all add: present_texts_def text_of_def map_filter_simps demo_world_def
      demo_config_def demo_content_def demo_exercises_def)

lemma sections_list_unreadable:
  assumes "\<not> readable (content_dir w) (chapters cfg)"
  shows "sections_list ev cfg w = None"
proof (cases "fst (build_document_sections ev cfg w)")
  case (Inl e)
  then show ?thesis by (simp add: sections_list_def)
next
  case (Inr r)
  from build_document_sections_Inr [OF this] assms show ?thesis by simp
qed

lemma demo_fs_view:
  "content_dir (demo_fs_world store) = dir_view demo_content_path store"
  "exercises_dir (demo_fs_world store) = dir_view demo_exercises_path store"
  by (simp_all add: demo_fs_world_def)

lemma demo_paths:
  "demo_content_path ''one.md'' = ''content/one.md''"
  "demo_content_path ''./one.md'' = ''content/one.md''"
  "demo_content_path ''two.md'' = ''content/two.md''"
  "demo_content_path ''three.md'' = ''content/three.md''"
  "demo_exercises_path ''ex.md'' = ''exercises/ex.md''"
  by (simp_all add: demo_content_path_def demo_exercises_path_def demo_normalise_def)

lemma demo_fs_sections:
  assumes "readable store (map demo_content_path (chapters cfg))"
    "readable store (map demo_exercises_path (exercises cfg))"
  shows "map_option length (sections_list demo_env cfg (demo_fs_world store)) =
     Some (length (present_texts store (map demo_content_path (chapters cfg))) +
           length (present_texts store (map demo_exercises_path (exercises cfg))))"
  by (simp add: sections_list_view [OF demo_fs_view assms])

theorem sections_follow_configuration_witness:
  "content_dir (demo_fs_world demo_store) = dir_view demo_content_path demo_store
   \<and> exercises_dir (demo_fs_world demo_store) = dir_view demo_exercises_path demo_store
   \<and> distinct (map demo_content_path (chapters demo_config) @
        map demo_exercises_path (exercises demo_config))
   \<and> readable (content_dir (demo_fs_world demo_store)) (chapters demo_config)
   \<and> readable (exercises_dir (demo_fs_world demo_store)) (exercises demo_config)
   \<and> sections_list demo_env demo_config (demo_fs_world demo_store) =
       Some [section_of demo_env ''# One [ ] [x]'', section_of demo_env ''Three'',
             section_of demo_env ''Exercise'']
   \<and> ''content/one.md'' \<in> demo_content_path ` set (chapters demo_config)
   \<and> demo_store ''content/one.md'' \<noteq> None
   \<and> (\<exists>S i. sections_list demo_env demo_config (demo_fs_world demo_store) = Some S
        \<and> i < length S
        \<and> sections_list demo_env demo_config
            (demo_fs_world demo_store
               \<lparr>content_dir := dir_view demo_content_path (demo_store(''content/one.md'' := None)),
                exercises_dir := dir_view demo_exercises_path (demo_store(''content/one.md'' := None))\<rparr>)
          = Some (take i S @ drop (Suc i) S))"
proof -
  have d: "distinct (map demo_content_path (chapters demo_config) @
        map demo_exercises_path (exercises demo_config))"
    by (simp add: demo_config_def demo_paths)
  have r: "readable (content_dir (demo_fs_world demo_store)) (chapters demo_config)"
    "readable (exercises_dir (demo_fs_world demo_store)) (exercises demo_config)"
    by (simp_all add: demo_fs_view readable_def dir_view_def demo_config_def demo_paths
        demo_store_def)
  have p: "present_texts (content_dir (demo_fs_world demo_store)) (chapters demo_config) =
      [''# One [ ] [x]'', ''Three'']"
    "present_texts (exercises_dir (demo_fs_world demo_store)) (exercises demo_config) =
      [''Exercise'']"
    by (simp_all add: demo_fs_view present_texts_def text_of_def dir_view_def
        map_filter_simps demo_config_def demo_paths demo_store_def)
  have m: "''content/one.md'' \<in> demo_content_path ` set (chapters demo_config)"
    "demo_store ''content/one.md'' \<noteq> None"
    by (simp_all add: demo_config_def demo_paths demo_store_def)
  note T = sections_follow_configuration [OF demo_fs_view d r, of demo_env]
  from T [THEN conjunct1]
  have a: "sections_list demo_env demo_config (demo_fs_world demo_store) =
       Some [section_of demo_env ''# One [ ] [x]'', section_of demo_env ''Three'',
             section_of demo_env ''Exercise'']"
    by (simp add: p)
  from T m
  have b: "\<exists>S i. sections_list demo_env demo_config (demo_fs_world demo_store) = Some S
        \<and> i < length S
        \<and> sections_list demo_env demo_config
            (demo_fs_world demo_store
               \<lparr>content_dir := dir_view demo_content_path (demo_store(''content/one.md'' := None)),
                exercises_dir := dir_view demo_exercises_path (demo_store(''content/one.md'' := None))\<rparr>)
          = Some (take i S @ drop (Suc i) S)"
    by blast
  from a b demo_fs_view [of demo_store] d r m show ?thesis by (intro conjI)
qed

text \<open>
  Claim C1 as stated fails in three ways. Two distinct filenames that denote one file,
  \<open>one.md\<close> and \<open>./one.md\<close>, give two sections, and removing that file leaves two
  fewer: three sections become one. The same happens for a filename listed twice. And a
  present file that cannot be read as text gives no document at all: loading the
  sections raises.
\<close>

theorem repeated_filename_counterexample:
  "distinct (chapters demo_alias_config)
   \<and> map_option length (sections_list demo_env demo_alias_config (demo_fs_world demo_store)) =
       Some 3
   \<and> map_option length
       (sections_list demo_env demo_alias_config
          (demo_fs_world (demo_store(''content/one.md'' := None)))) = Some 1
   \<and> map_option length (sections_list demo_env demo_repeated_config (demo_fs_world demo_store)) =
       Some 3
   \<and> map_option length
       (sections_list demo_env demo_repeated_config
          (demo_fs_world (demo_store(''content/one.md'' := None)))) = Some 1
   \<and> demo_store ''content/three.md'' \<noteq> None
   \<and> sections_list demo_env demo_config
       (demo_fs_world (demo_store(''content/three.md'' \<mapsto> Unreadable))) = None"
proof -
  have 1: "distinct (chapters demo_alias_config)"
    by (simp add: demo_alias_config_def)
  have 2: "map_option length (sections_list demo_env demo_alias_config (demo_fs_world demo_store)) =
       Some 3"
    by (subst demo_fs_sections)
       (simp_all add: readable_def present_texts_def text_of_def map_filter_simps
          demo_alias_config_def demo_paths demo_store_def)
  have 3: "map_option length
       (sections_list demo_env demo_alias_config
          (demo_fs_world (demo_store(''content/one.md'' := None)))) = Some 1"
    by (subst demo_fs_sections)
       (simp_all add: readable_def present_texts_def text_of_def map_filter_simps
          demo_alias_config_def demo_paths demo_store_def)
  have 4: "map_option length (sections_list demo_env demo_repeated_config (demo_fs_world demo_store)) =
       Some 3"
    by (subst demo_fs_sections)
       (simp_all add: readable_def present_texts_def text_of_def map_filter_simps
          demo_repeated_config_def demo_paths demo_store_def)
  have 5: "map_option length
       (sections_list demo_env demo_repeated_config
          (demo_fs_world (demo_store(''content/one.md'' := None)))) = Some 1"
    by (subst demo_fs_sections)
       (simp_all add: readable_def present_texts_def text_of_def map_filter_simps
          demo_repeated_config_def demo_paths demo_store_def)
  have 6: "demo_store ''content/three.md'' \<noteq> None"
    by (simp add: demo_store_def)
  have "\<not> readable (content_dir (demo_fs_world (demo_store(''content/three.md'' \<mapsto> Unreadable))))
      (chapters demo_config)"
    by (simp add: demo_fs_view readable_def dir_view_def demo_config_def demo_paths)
  then have 7: "sections_list demo_env demo_config
       (demo_fs_world (demo_store(''content/three.md'' \<mapsto> Unreadable))) = None"
    by (rule sections_list_unreadable)
  from 1 2 3 4 5 6 7 show ?thesis by (intro conjI)
qed

text \<open>
  Claim C3. A configured filename whose file is absent adds a warning line and no
  section, and the loop goes on: when every listed file that exists can be read,
  \<open>md_to_html\<close> returns the sections of the present files and has printed one warning
  per absent file, in order. When it does raise, the cause is a listed file that exists
  and cannot be read, never an absent one.
\<close>

theorem missing_unit_skipped:
  "(readable source_dir filenames \<longrightarrow>
      md_to_html ev source_dir filenames w =
        (Inr (map (section_of ev) (present_texts source_dir filenames)),
         w\<lparr>stdout := stdout w @
              map warning_line (filter (\<lambda>f. source_dir f = None) filenames)\<rparr>))
   \<and> (\<forall>e. fst (md_to_html ev source_dir filenames w) = Inl e \<longrightarrow>
          (\<exists>f\<in>set filenames. source_dir f = Some Unreadable \<and> e = ReadError f))
   \<and> length (present_texts source_dir filenames) =
       length (filter (\<lambda>f. \<exists>t. source_dir f = Some (Text t)) filenames)"
proof -
  have "length (present_texts source_dir filenames) =
       length (filter (\<lambda>f. \<exists>t. source_dir f = Some (Text t)) filenames)"
    by (induction filenames)
       (auto simp: present_texts_Cons text_of_def present_texts_simps
          split: option.splits entry.splits)
  then show ?thesis
    using md_to_html_readable [of source_dir filenames ev w]
      md_to_html_loop_Inl [of ev source_dir filenames "[]" w]
    by (simp add: md_to_html_def)
qed

theorem missing_unit_skipped_witness:
  "readable demo_content [''one.md'', ''two.md'', ''three.md'']
   \<and> demo_content ''two.md'' = None
   \<and> fst (md_to_html demo_env demo_content [''one.md'', ''two.md'', ''three.md''] demo_world) =
       Inr [section_of demo_env ''# One [ ] [x]'', section_of demo_env ''Three'']
   \<and> stdout (snd (md_to_html demo_env demo_content [''one.md'', ''two.md'', ''three.md''] demo_world)) =
       [Line ''  WARNING: two.md not found, skipping.'']"
proof -
  have r: "readable demo_content [''one.md'', ''two.md'', ''three.md'']"
    by (simp add: readable_def demo_content_def)
  have p: "present_texts demo_content [''one.md'', ''two.md'', ''three.md''] =
      [''# One [ ] [x]'', ''Three'']"
    by (simp add: present_texts_def text_of_def map_filter_simps demo_content_def)
  have f: "filter (\<lambda>f. demo_content f = None) [''one.md'', ''two.md'', ''three.md''] = [''two.md'']"
    by (simp add: demo_content_def)
  have n: "demo_content ''two.md'' = None"
    by (simp add: demo_content_def)
  from missing_unit_skipped [of demo_content "[''one.md'', ''two.md'', ''three.md'']" demo_env demo_world] r
  have "md_to_html demo_env demo_content [''one.md'', ''two.md'', ''three.md''] demo_world =
      (Inr (map (section_of demo_env) [''# One [ ] [x]'', ''Three'']),
       demo_world\<lparr>stdout := stdout demo_world @ map warning_line [''two.md'']\<rparr>)"
    by (simp only: p f)
  with r n show ?thesis
    by (simp add: warning_line_def demo_world_def)
qed

text \<open>
  Claim C5. With a readable style sheet and readable content files, the assembled
  document is the head with the style sheet's text inline, the cover block, the outline
  holding one entry per (title, flag) pair of the outline list, with the class chosen
  by the flag, then the primary sections and then the supplementary sections. The
  outline depends on the outline list alone, not on the filename lists.
\<close>

theorem document_is_concatenation:
  assumes "style_file w = Some (Text css)"
    and "readable (content_dir w) (chapters cfg)" "readable (exercises_dir w) (exercises cfg)"
  shows \<open>fst (build_document ev cfg w) = Inr (
       ''<!DOCTYPE html>\<newline>'' @
       ''<html lang="en">\<newline>'' @
       ''<head>\<newline>'' @
       ''    <meta charset="UTF-8">\<newline>'' @
       ''    <style>\<newline>'' @
       css @ ''\<newline>'' @
       ''    </style>\<newline>'' @
       ''</head>\<newline>'' @
       ''<body>\<newline>'' @
       cover cfg @ ''\<newline>'' @
       (''\<newline>'' @
        ''<div class="toc">\<newline>'' @
        ''    <h1>Table of Contents</h1>\<newline>'' @
        ''    <ul>\<newline>'' @
        ''        '' @ concat (map toc_item (toc_entries cfg)) @ ''\<newline>'' @
        ''    </ul>\<newline>'' @
        ''</div>\<newline>'') @ ''\<newline>'' @
       concat (map (section_of ev) (present_texts (content_dir w) (chapters cfg))) @
       concat (map (section_of ev) (present_texts (exercises_dir w) (exercises cfg))) @
       ''\<newline>'' @
       ''</body>\<newline>'' @
       ''</html>'')
     \<and> (\<forall>cs es. build_toc (toc_entries (cfg\<lparr>chapters := cs, exercises := es\<rparr>)) =
           build_toc (toc_entries cfg))\<close>
  using assms
  by (simp add: build_document_readable document_text_def build_toc_def build_toc_items_eq)

theorem document_is_concatenation_witness:
  \<open>style_file demo_world = Some (Text ''body { }'')
   \<and> readable (content_dir demo_world) (chapters demo_config)
   \<and> readable (exercises_dir demo_world) (exercises demo_config)
   \<and> fst (build_document demo_env demo_config demo_world) = Inr (
       ''<!DOCTYPE html>\<newline>'' @
       ''<html lang="en">\<newline>'' @
       ''<head>\<newline>'' @
       ''    <meta charset="UTF-8">\<newline>'' @
       ''    <style>\<newline>'' @
       ''body { }\<newline>'' @
       ''    </style>\<newline>'' @
       ''</head>\<newline>'' @
       ''<body>\<newline>'' @
       ''<div>cover</div>\<newline>'' @
       ''\<newline>'' @
       ''<div class="toc">\<newline>'' @
       ''    <h1>Table of Contents</h1>\<newline>'' @
       ''    <ul>\<newline>'' @
       ''        <li class="chapter-entry">One</li><li class="appendix-entry">Notes</li>\<newline>'' @
       ''    </ul>\<newline>'' @
       ''</div>\<newline>'' @
       ''\<newline>'' @
       section_of demo_env ''# One [ ] [x]'' @
       section_of demo_env ''Three'' @
       section_of demo_env ''Exercise'' @
       ''\<newline>'' @
       ''</body>\<newline>'' @
       ''</html>'')\<close>
proof -
  have s: "style_file demo_world = Some (Text ''body { }'')"
    by (simp add: demo_world_def)
  have c: "cover demo_config = ''<div>cover</div>''"
    "toc_entries demo_config = [(''One'', True), (''Notes'', False)]"
    by (simp_all add: demo_config_def)
  from document_is_concatenation [OF s demo_readable, of demo_env] s demo_readable
  show ?thesis
    by (simp add: demo_present_texts c toc_item_def)
qed

text \<open>
  Claim C10. Every section, primary or supplementary, is the converted text of a present
  file inside the same \<open>div\<close> of class \<open>chapter\<close>: the two section lists that
  \<open>build_document\<close> loads are exactly these wrappings of the present texts of each
  list. The document carries nothing that tells the two kinds apart: two builds whose
  present texts, primary followed by supplementary, are the same sequence produce the
  same document, wherever the boundary between the two lists falls.
\<close>

theorem sections_share_container:
  assumes "fst (build_document ev cfg1 w1) = Inr doc1"
    and "fst (build_document ev cfg2 w2) = Inr doc2"
    and "style_file w1 = style_file w2" "cover cfg1 = cover cfg2"
    and "toc_entries cfg1 = toc_entries cfg2"
    and "present_texts (content_dir w1) (chapters cfg1) @
           present_texts (exercises_dir w1) (exercises cfg1) =
         present_texts (content_dir w2) (chapters cfg2) @
           present_texts (exercises_dir w2) (exercises cfg2)"
  shows \<open>doc1 = doc2
     \<and> fst (build_document_sections ev cfg1 w1) =
         Inr (map (\<lambda>md_text. ''<div class="chapter">\<newline>'' @ md_to_html_convert ev md_text @
                      ''\<newline></div>'')
                (present_texts (content_dir w1) (chapters cfg1)),
              map (\<lambda>md_text. ''<div class="chapter">\<newline>'' @ md_to_html_convert ev md_text @
                      ''\<newline></div>'')
                (present_texts (exercises_dir w1) (exercises cfg1)))\<close>
proof -
  from build_document_Inr [OF assms(1)] obtain css1 where 1: "style_file w1 = Some (Text css1)"
    "readable (content_dir w1) (chapters cfg1)" "readable (exercises_dir w1) (exercises cfg1)"
    by blast
  from build_document_Inr [OF assms(2)] obtain css2 where 2: "style_file w2 = Some (Text css2)"
    "readable (content_dir w2) (chapters cfg2)" "readable (exercises_dir w2) (exercises cfg2)"
    by blast
  from 1(1) 2(1) assms(3) have css: "css1 = css2" by simp
  have m: "map (section_of ev) (present_texts (content_dir w1) (chapters cfg1)) @
        map (section_of ev) (present_texts (exercises_dir w1) (exercises cfg1)) =
      map (section_of ev) (present_texts (content_dir w2) (chapters cfg2)) @
        map (section_of ev) (present_texts (exercises_dir w2) (exercises cfg2))"
    using arg_cong [OF assms(6), of "map (section_of ev)"] by simp
  have d: "doc1 = doc2"
    using assms(1,2) assms(4,5) css m
    by (simp add: build_document_readable [OF 1] build_document_readable [OF 2])
  have s: \<open>section_of ev = (\<lambda>md_text. ''<div class="chapter">\<newline>'' @
      md_to_html_convert ev md_text @ ''\<newline></div>'')\<close>
    by (simp add: section_of_def chapter_div_def fun_eq_iff)
  have "fst (build_document_sections ev cfg1 w1) =
      Inr (map (section_of ev) (present_texts (content_dir w1) (chapters cfg1)),
           map (section_of ev) (present_texts (exercises_dir w1) (exercises cfg1)))"
    by (simp add: build_document_sections_readable [OF 1(2,3)])
  with d show ?thesis unfolding s by (intro conjI)
qed

theorem sections_share_container_witness:
  \<open>fst (build_document demo_env demo_config demo_world) =
     fst (build_document demo_env demo_merged_config demo_merged_world)
   \<and> (\<exists>doc. fst (build_document demo_env demo_config demo_world) = Inr doc)
   \<and> chapters demo_config \<noteq> chapters demo_merged_config
   \<and> exercises demo_config \<noteq> exercises demo_merged_config
   \<and> fst (build_document_sections demo_env demo_config demo_world) =
       Inr ([''<div class="chapter">\<newline><p># One '' @ unchecked_widget @ '' '' @ checked_widget @
               ''</p>\<newline></div>'',
             ''<div class="chapter">\<newline><p>Three</p>\<newline></div>''],
            [''<div class="chapter">\<newline><p>Exercise</p>\<newline></div>''])\<close>
proof -
  have s: "style_file demo_world = Some (Text ''body { }'')"
    "style_file demo_merged_world = Some (Text ''body { }'')"
    by (simp_all add: demo_world_def demo_merged_world_def)
  have r: "readable (content_dir demo_merged_world) (chapters demo_merged_config)"
    "readable (exercises_dir demo_merged_world) (exercises demo_merged_config)"
    by (simp_all add: readable_def demo_merged_world_def demo_merged_config_def
        demo_merged_content_def)
  obtain doc1 where d1: "fst (build_document demo_env demo_config demo_world) = Inr doc1"
    by (simp add: build_document_readable [OF s(1) demo_readable])
  obtain doc2 where d2: "fst (build_document demo_env demo_merged_config demo_merged_world) = Inr doc2"
    by (simp add: build_document_readable [OF s(2) r])
  have p: "present_texts (content_dir demo_world) (chapters demo_config) @
           present_texts (exercises_dir demo_world) (exercises demo_config) =
         present_texts (content_dir demo_merged_world) (chapters demo_merged_config) @
           present_texts (exercises_dir demo_merged_world) (exercises demo_merged_config)"
    by (simp add: demo_present_texts)
       (simp add: present_texts_def text_of_def map_filter_simps demo_merged_world_def
          demo_merged_config_def demo_merged_content_def)
  have c: "style_file demo_world = style_file demo_merged_world"
    "cover demo_config = cover demo_merged_config"
    "toc_entries demo_config = toc_entries demo_merged_config"
    by (simp_all add: s demo_config_def demo_merged_config_def)
  have k: "checkboxes ''<p># One [ ] [x]</p>'' =
      ''<p># One '' @ unchecked_widget @ '' '' @ checked_widget @ ''</p>''"
    "checkboxes ''<p>Three</p>'' = ''<p>Three</p>''"
    "checkboxes ''<p>Exercise</p>'' = ''<p>Exercise</p>''"
    by code_simp+
  have v: "md_to_html_convert demo_env ''# One [ ] [x]'' =
      ''<p># One '' @ unchecked_widget @ '' '' @ checked_widget @ ''</p>''"
    "md_to_html_convert demo_env ''Three'' = ''<p>Three</p>''"
    "md_to_html_convert demo_env ''Exercise'' = ''<p>Exercise</p>''"
    using k by (simp_all add: md_to_html_convert_def demo_env_def demo_markdown_def)
  note T = sections_share_container [OF d1 d2 c p]
  from T have e: "doc1 = doc2" by (rule conjunct1)
  from T [THEN conjunct2]
  have b: \<open>fst (build_document_sections demo_env demo_config demo_world) =
       Inr ([''<div class="chapter">\<newline><p># One '' @ unchecked_widget @ '' '' @ checked_widget @
               ''</p>\<newline></div>'',
             ''<div class="chapter">\<newline><p>Three</p>\<newline></div>''],
            [''<div class="chapter">\<newline><p>Exercise</p>\<newline></div>''])\<close>
    by (simp add: demo_present_texts v)
  have n: "chapters demo_config \<noteq> chapters demo_merged_config"
    "exercises demo_config \<noteq> exercises demo_merged_config"
    by (simp_all add: demo_config_def demo_merged_config_def)
  from e d1 d2 have "fst (build_document demo_env demo_config demo_world) =
     fst (build_document demo_env demo_merged_config demo_merged_world)"
    by simp
  moreover from d1 have "\<exists>doc. fst (build_document demo_env demo_config demo_world) = Inr doc"
    by blast
  ultimately show ?thesis using n b by (intro conjI)
qed

lemma preservesD: "preserves P m \<Longrightarrow> P w \<Longrightarrow> P (snd (m w))"
  by (simp add: preserves_def)

lemma preserves_bind:
  assumes "preserves P m" "\<And>x. preserves P (f x)"
  shows "preserves P (bind m f)"
  unfolding preserves_def
proof (intro allI impI)
  fix w assume "P w"
  obtain r w' where m: "m w = (r, w')" by (cases "m w")
  from preservesD [OF assms(1) \<open>P w\<close>] m have w': "P w'" by simp
  show "P (snd (bind m f w))"
  proof (cases r)
    case (Inl e)
    with m w' show ?thesis by (simp add: bind_def)
  next
    case (Inr x)
    with m preservesD [OF assms(2) w', of x] show ?thesis by (simp add: bind_def)
  qed
qed

lemma preserves_same: "(\<And>w. snd (m w) = w) \<Longrightarrow> preserves P m"
  by (simp add: preserves_def)

lemma engine_eq:
  "engine ev c w =
     (if engine_ok ev c then Inr () else Inl (EngineError c), w\<lparr>engine_log := engine_log w @ [c]\<rparr>)"
  by (simp add: engine_def Let_def)

lemma write_file_cases:
  "write_file path content w = (Inr (), w') \<Longrightarrow>
   \<exists>files. output_dir w = Directory files \<and> w' = w\<lparr>output_dir := Directory (files(path \<mapsto> content))\<rparr>"
  by (cases "output_dir w") (auto simp: write_file_def)

lemma write_file_snd:
  "snd (write_file path content w) = w \<or>
   (\<exists>files. output_dir w = Directory files \<and>
      snd (write_file path content w) = w\<lparr>output_dir := Directory (files(path \<mapsto> content))\<rparr>)"
  by (cases "output_dir w") (auto simp: write_file_def)

lemma preserves_engine_file: "preserves (file_is path content) (engine ev c)"
  by (simp add: preserves_def engine_eq file_is_def lookup_file_def)

lemma preserves_engine_log:
  "c \<in> A \<Longrightarrow> preserves (log_within L A) (engine ev c)"
  by (auto simp: preserves_def engine_eq log_within_def)

lemma preserves_goto_leaf:
  "preserves P (\<lambda>w. case lookup_file html_path w of
       None \<Rightarrow> (Inl (EngineError (Goto html_path)), w) | Some page \<Rightarrow> (Inr page, w))"
  by (rule preserves_same) (simp split: option.split)

lemma pdf_leaf_snd:
  "snd (case write_file pdf_path bytes w of
         (Inl e, w') \<Rightarrow> (Inl (EngineError (Pdf pdf_path)), w')
       | (Inr u, w') \<Rightarrow> (Inr u, w')) = snd (write_file pdf_path bytes w)"
  by (simp split: prod.split sum.split)

lemma preserves_pdf_leaf_file:
  "html_path \<noteq> pdf_path \<Longrightarrow>
   preserves (file_is html_path content) (\<lambda>w. case write_file pdf_path bytes w of
         (Inl e, w') \<Rightarrow> (Inl (EngineError (Pdf pdf_path)), w')
       | (Inr u, w') \<Rightarrow> (Inr u, w'))"
  unfolding preserves_def pdf_leaf_snd
proof (intro allI impI)
  fix w assume "html_path \<noteq> pdf_path" "file_is html_path content w"
  with write_file_snd [of pdf_path bytes w]
  show "file_is html_path content (snd (write_file pdf_path bytes w))"
    by (auto simp: file_is_def lookup_file_def)
qed

lemma preserves_pdf_leaf_log:
  "preserves (log_within L A) (\<lambda>w. case write_file pdf_path bytes w of
         (Inl e, w') \<Rightarrow> (Inl (EngineError (Pdf pdf_path)), w')
       | (Inr u, w') \<Rightarrow> (Inr u, w'))"
  unfolding preserves_def pdf_leaf_snd
proof (intro allI impI)
  fix w assume "log_within L A w"
  with write_file_snd [of pdf_path bytes w]
  show "log_within L A (snd (write_file pdf_path bytes w))"
    by (auto simp: log_within_def)
qed

lemma body_preserves_file:
  "html_path \<noteq> pdf_path \<Longrightarrow>
   preserves (file_is html_path content) (render_pdf_body ev html_path pdf_path)"
  unfolding render_pdf_body_def engine_goto_def engine_page_pdf_def
  by (intro preserves_bind preserves_engine_file preserves_goto_leaf preserves_pdf_leaf_file)

lemma body_preserves_log:
  "{Launch, NewPage, Goto html_path, WaitForLoadState, Pdf pdf_path, Close} \<subseteq> A \<Longrightarrow>
   preserves (log_within L A) (render_pdf_body ev html_path pdf_path)"
  unfolding render_pdf_body_def engine_goto_def engine_page_pdf_def
  by (intro preserves_bind preserves_engine_log preserves_goto_leaf preserves_pdf_leaf_log) auto

lemma bind_Inr_iff:
  "bind m f w = (Inr y, w'') \<longleftrightarrow> (\<exists>x w'. m w = (Inr x, w') \<and> f x w' = (Inr y, w''))"
proof (cases "m w")
  case (Pair r w')
  then show ?thesis by (cases r) (auto simp: bind_def)
qed

lemma with_sync_playwright_log:
  "engine_ok ev Start \<Longrightarrow>
   engine_log (snd (with_sync_playwright ev body w)) =
     engine_log (snd (body (w\<lparr>engine_log := engine_log w @ [Start]\<rparr>))) @ [Stop]"
  by (simp add: with_sync_playwright_def bind_def engine_eq split: prod.split sum.split)

lemma render_pdf_log:
  "write_file html_path html_content w = (Inr (), w1) \<Longrightarrow>
   engine_log (snd (render_pdf ev html_content html_path pdf_path w)) =
     engine_log (snd (with_sync_playwright ev (render_pdf_body ev html_path pdf_path) w1))"
  by (simp add: render_pdf_def bind_def print_line_def split: prod.split sum.split option.split)

text \<open>
  Claim C8. Once the intermediate file is written and \<open>sync_playwright()\<close> has been
  entered, the engine's calls in \<open>render_pdf\<close> are \<open>Start\<close>, then calls of the body,
  then \<open>Stop\<close>: the exit of the \<open>with\<close> statement is the last call, whether the body
  returned or one of its calls raised, and it happens once.
\<close>

theorem engine_released:
  assumes "fst (write_file html_path html_content w) = Inr ()" and "engine_ok ev Start"
  shows "\<exists>calls.
      engine_log (snd (render_pdf ev html_content html_path pdf_path w)) =
        engine_log w @ [Start] @ calls @ [Stop]
      \<and> Start \<notin> set calls \<and> Stop \<notin> set calls"
proof -
  let ?A = "{Launch, NewPage, Goto html_path, WaitForLoadState, Pdf pdf_path, Close}"
  from assms(1) obtain w1 where w1: "write_file html_path html_content w = (Inr (), w1)"
    by (cases "write_file html_path html_content w") auto
  from write_file_cases [OF w1] have l1: "engine_log w1 = engine_log w" by auto
  let ?w2 = "w1\<lparr>engine_log := engine_log w1 @ [Start]\<rparr>"
  have "log_within (engine_log w @ [Start]) ?A ?w2"
    by (simp add: log_within_def l1)
  from preservesD [OF body_preserves_log [OF subset_refl] this]
  obtain calls where c: "engine_log (snd (render_pdf_body ev html_path pdf_path ?w2)) =
      (engine_log w @ [Start]) @ calls" "set calls \<subseteq> ?A"
    unfolding log_within_def by blast
  have "engine_log (snd (render_pdf ev html_content html_path pdf_path w)) =
      engine_log w @ [Start] @ calls @ [Stop]"
    by (simp add: render_pdf_log [OF w1] with_sync_playwright_log [OF assms(2)] c(1))
  moreover from c(2) have "Start \<notin> set calls" "Stop \<notin> set calls" by auto
  ultimately show ?thesis by blast
qed

theorem engine_released_witness:
  "fst (write_file HTML_FILE ''<html></html>'' demo_output_world) = Inr ()
   \<and> engine_ok demo_failing_env Start
   \<and> fst (render_pdf demo_failing_env ''<html></html>'' HTML_FILE PDF_FILE demo_output_world) =
       Inl (EngineError WaitForLoadState)
   \<and> engine_log (snd (render_pdf demo_failing_env ''<html></html>'' HTML_FILE PDF_FILE demo_output_world)) =
       [Start, Launch, NewPage, Goto HTML_FILE, WaitForLoadState, Stop]"
proof -
  have 1: "fst (write_file HTML_FILE ''<html></html>'' demo_output_world) = Inr ()"
    by (simp add: write_file_def demo_output_world_def)
  have 2: "engine_ok demo_failing_env Start"
    by (simp add: demo_failing_env_def demo_failing_ok_def)
  have 3: "render_pdf demo_failing_env ''<html></html>'' HTML_FILE PDF_FILE demo_output_world =
      (Inl (EngineError WaitForLoadState),
       demo_output_world
         \<lparr>output_dir := Directory [HTML_FILE \<mapsto> ''<html></html>''],
          engine_log := [Start, Launch, NewPage, Goto HTML_FILE, WaitForLoadState, Stop]\<rparr>)"
    by (simp add: render_pdf_def bind_def write_file_def with_sync_playwright_def
        render_pdf_body_def engine_goto_def engine_page_pdf_def engine_eq lookup_file_def
        demo_failing_env_def demo_failing_ok_def demo_output_world_def)
  from engine_released [OF 1 2, of PDF_FILE] 1 2 3 show ?thesis
    by simp
qed

text \<open>
  Claim C4. When the style sheet is missing or cannot be read, \<open>main\<close> ends with an
  error, the one of the style sheet unless creating the output directory has already
  failed; the engine is never called, and no file of the output directory is created or
  changed. \<open>build_document\<close> itself raises before printing or reading anything else.
\<close>

theorem missing_style_sheet_aborts:
  assumes "style_file w = None \<or> style_file w = Some Unreadable"
  shows "(\<exists>e. fst (main ev cfg argv w) = Inl e
          \<and> (output_dir w \<noteq> NotADirectory \<longrightarrow>
               e = (if style_file w = None then FileNotFoundError STYLE_FILE
                    else ReadError STYLE_FILE)))
     \<and> engine_log (snd (main ev cfg argv w)) = engine_log w
     \<and> (\<forall>path. lookup_file path (snd (main ev cfg argv w)) = lookup_file path w)
     \<and> build_document ev cfg w =
         (Inl (if style_file w = None then FileNotFoundError STYLE_FILE
               else ReadError STYLE_FILE), w)"
proof -
  let ?e = "if style_file w = None then FileNotFoundError STYLE_FILE else ReadError STYLE_FILE"
  have b: "\<And>w'. style_file w' = style_file w \<Longrightarrow> build_document ev cfg w' = (Inl ?e, w')"
    using assms build_document_style_error [of _ ev cfg] by auto
  show ?thesis
  proof (cases "output_dir w")
    case Missing
    then show ?thesis
      using b [of w]
      by (simp add: main_def Let_def bind_def mkdir_exist_ok_def print_line_def b lookup_file_def)
  next
    case NotADirectory
    then show ?thesis
      using b [of w]
      by (simp add: main_def Let_def bind_def mkdir_exist_ok_def)
  next
    case (Directory files)
    then show ?thesis
      using b [of w]
      by (simp add: main_def Let_def bind_def mkdir_exist_ok_def print_line_def b lookup_file_def)
  qed
qed

theorem missing_style_sheet_aborts_witness:
  "style_file (demo_world\<lparr>style_file := None\<rparr>) = None
   \<and> fst (main demo_env demo_config [''build.py''] (demo_world\<lparr>style_file := None\<rparr>)) =
       Inl (FileNotFoundError STYLE_FILE)
   \<and> engine_log (snd (main demo_env demo_config [''build.py''] (demo_world\<lparr>style_file := None\<rparr>))) = []
   \<and> lookup_file HTML_FILE (snd (main demo_env demo_config [''build.py''] (demo_world\<lparr>style_file := None\<rparr>))) = None
   \<and> lookup_file PDF_FILE (snd (main demo_env demo_config [''build.py''] (demo_world\<lparr>style_file := None\<rparr>))) = None"
proof -
  have s: "style_file (demo_world\<lparr>style_file := None\<rparr>) = None \<or>
      style_file (demo_world\<lparr>style_file := None\<rparr>) = Some Unreadable"
    by simp
  have o: "output_dir (demo_world\<lparr>style_file := None\<rparr>) \<noteq> NotADirectory"
    "engine_log (demo_world\<lparr>style_file := None\<rparr>) = []"
    "\<And>path. lookup_file path (demo_world\<lparr>style_file := None\<rparr>) = None"
    by (simp_all add: demo_world_def lookup_file_def)
  from missing_style_sheet_aborts [OF s, of demo_env demo_config "[''build.py'']"] o
  show ?thesis by auto
qed

lemma paths_differ: "HTML_FILE \<noteq> PDF_FILE"
  by (simp add: HTML_FILE_def PDF_FILE_def)

lemma with_preserves_file:
  assumes "preserves (file_is path content) body"
  shows "preserves (file_is path content) (with_sync_playwright ev body)"
  unfolding with_sync_playwright_def
proof (intro preserves_bind preserves_engine_file)
  fix u :: unit
  show "preserves (file_is path content)
     (\<lambda>w. case body w of
        (r, w') \<Rightarrow>
          (case engine ev Stop w' of
             (Inl e, w'') \<Rightarrow> (Inl e, w'')
           | (Inr _, w'') \<Rightarrow> (r, w'')))"
    unfolding preserves_def
  proof (intro allI impI)
    fix w assume "file_is path content w"
    from preservesD [OF assms this] show "file_is path content
       (snd (case body w of
          (r, w') \<Rightarrow>
            (case engine ev Stop w' of
               (Inl e, w'') \<Rightarrow> (Inl e, w'')
             | (Inr _, w'') \<Rightarrow> (r, w''))))"
      by (cases "body w") (simp add: engine_eq file_is_def lookup_file_def)
  qed
qed

lemma preserves_stat_leaf:
  "preserves (file_is path content) (\<lambda>w. case lookup_file pdf_path w of
       None \<Rightarrow> (Inl (FileNotFoundError pdf_path), w)
     | Some bytes \<Rightarrow> (Inr (), print_line (PdfSaved pdf_path (length bytes)) w))"
  by (simp add: preserves_def file_is_def lookup_file_def print_line_def split: option.split)

lemma render_pdf_writes_first:
  assumes "output_dir w = Directory files" "html_path \<noteq> pdf_path"
  shows "lookup_file html_path (snd (render_pdf ev html_content html_path pdf_path w)) =
     Some html_content"
proof -
  let ?w1 = "w\<lparr>output_dir := Directory (files(html_path \<mapsto> html_content))\<rparr>"
  let ?rest = "bind (with_sync_playwright ev (render_pdf_body ev html_path pdf_path))
       (\<lambda>_ w. case lookup_file pdf_path w of
           None \<Rightarrow> (Inl (FileNotFoundError pdf_path), w)
         | Some bytes \<Rightarrow> (Inr (), print_line (PdfSaved pdf_path (length bytes)) w))"
  have w1: "write_file html_path html_content w = (Inr (), ?w1)"
    using assms(1) by (simp add: write_file_def)
  have "file_is html_path html_content ?w1"
    by (simp add: file_is_def lookup_file_def)
  moreover have "preserves (file_is html_path html_content) ?rest"
    by (intro preserves_bind with_preserves_file body_preserves_file [OF assms(2)]
        preserves_stat_leaf)
  ultimately have "file_is html_path html_content (snd (?rest ?w1))"
    by (rule preservesD [rotated])
  moreover have "render_pdf ev html_content html_path pdf_path w = ?rest ?w1"
    by (simp add: render_pdf_def bind_def w1)
  ultimately show ?thesis by (simp add: file_is_def)
qed

lemma render_pdf_write_fails:
  assumes "fst (write_file html_path html_content w) \<noteq> Inr ()"
  shows "render_pdf ev html_content html_path pdf_path w =
     (fst (write_file html_path html_content w), w)"
proof (cases "output_dir w")
  case Missing
  then show ?thesis by (simp add: render_pdf_def bind_def write_file_def)
next
  case NotADirectory
  then show ?thesis by (simp add: render_pdf_def bind_def write_file_def)
next
  case (Directory files)
  with assms show ?thesis by (simp add: write_file_def)
qed

lemma unlink_absent:
  assumes "lookup_file path w = None" "output_dir w \<noteq> NotADirectory"
  shows "unlink path True w = (Inr (), w)"
  using assms by (cases "output_dir w") (simp_all add: unlink_def lookup_file_def)

lemma build_document_Inr_cong:
  assumes "fst (build_document ev cfg w') = Inr doc"
    and "style_file w' = style_file w" "content_dir w' = content_dir w"
    and "exercises_dir w' = exercises_dir w"
  shows "fst (build_document ev cfg w) = Inr doc"
    and "\<exists>out. snd (build_document ev cfg w') = w'\<lparr>stdout := out\<rparr>"
proof -
  from build_document_Inr [OF assms(1)] obtain css where c: "style_file w' = Some (Text css)"
    "readable (content_dir w') (chapters cfg)" "readable (exercises_dir w') (exercises cfg)"
    by blast
  then have c': "style_file w = Some (Text css)"
    "readable (content_dir w) (chapters cfg)" "readable (exercises_dir w) (exercises cfg)"
    using assms(2-4) by simp_all
  from assms(1) show "fst (build_document ev cfg w) = Inr doc"
    by (simp add: build_document_readable [OF c] build_document_readable [OF c'] assms(3,4))
  show "\<exists>out. snd (build_document ev cfg w') = w'\<lparr>stdout := out\<rparr>"
    by (rule exI [of _ "stdout w' @ sections_output ev cfg w'"])
       (simp add: build_document_readable [OF c])
qed

lemma mkdir_exist_ok_Inr:
  assumes "mkdir_exist_ok w = (Inr u, w1)"
  shows "\<exists>files. w1 = w\<lparr>output_dir := Directory files\<rparr>"
proof (cases "output_dir w")
  case Missing
  with assms show ?thesis by (auto simp: mkdir_exist_ok_def)
next
  case NotADirectory
  with assms show ?thesis by (simp add: mkdir_exist_ok_def)
next
  case (Directory files)
  with assms have "w1 = w" by (simp add: mkdir_exist_ok_def)
  with Directory have "w1 = w\<lparr>output_dir := Directory files\<rparr>" by simp
  then show ?thesis by blast
qed

lemma main_Inr:
  assumes "fst (main ev cfg argv w) = Inr ()"
  shows "\<exists>files doc w3 w4 w5.
      build_document ev cfg
        (print_line (Line ''Building AI Security Architecture Guide...'')
           (w\<lparr>output_dir := Directory files\<rparr>)) = (Inr doc, w3)
      \<and> render_pdf ev doc HTML_FILE PDF_FILE w3 = (Inr (), w4)
      \<and> (if ''--html'' \<notin> set argv then unlink HTML_FILE True w4 else (Inr (), w4)) = (Inr (), w5)
      \<and> snd (main ev cfg argv w) = print_line (Line ''\<newline>Done.'') w5"
proof -
  from assms obtain wf where "main ev cfg argv w = (Inr (), wf)"
    by (cases "main ev cfg argv w") auto
  then obtain w1 doc w3 w4 w5 where s: "mkdir_exist_ok w = (Inr (), w1)"
    "build_document ev cfg (print_line (Line ''Building AI Security Architecture Guide...'') w1)
       = (Inr doc, w3)"
    "render_pdf ev doc HTML_FILE PDF_FILE w3 = (Inr (), w4)"
    "(if ''--html'' \<notin> set argv then unlink HTML_FILE True else (\<lambda>w. (Inr (), w))) w4 = (Inr (), w5)"
    "wf = print_line (Line ''\<newline>Done.'') w5"
    by (auto simp: main_def Let_def bind_Inr_iff)
  from mkdir_exist_ok_Inr [OF s(1)] obtain files where "w1 = w\<lparr>output_dir := Directory files\<rparr>"
    by blast
  with s \<open>main ev cfg argv w = (Inr (), wf)\<close> show ?thesis
    by (intro exI [of _ files] exI [of _ doc] exI [of _ w3] exI [of _ w4] exI [of _ w5])
       (simp split: if_splits)
qed

lemma lookup_file_print_line: "lookup_file path (print_line l w) = lookup_file path w"
  by (simp add: lookup_file_def print_line_def)

lemma unlink_removes:
  assumes "unlink path missing_ok w = (Inr (), w')"
  shows "lookup_file path w' = None"
proof (cases "output_dir w")
  case Missing
  with assms show ?thesis by (auto simp: unlink_def lookup_file_def split: if_splits)
next
  case NotADirectory
  with assms show ?thesis by (simp add: unlink_def)
next
  case (Directory files)
  with assms show ?thesis
    by (cases "files path") (auto simp: unlink_def lookup_file_def split: if_splits)
qed

lemma unlink_present:
  assumes "lookup_file path w = Some content"
  shows "fst (unlink path missing_ok w) = Inr ()"
proof (cases "output_dir w")
  case Missing
  with assms show ?thesis by (simp add: lookup_file_def)
next
  case NotADirectory
  with assms show ?thesis by (simp add: lookup_file_def)
next
  case (Directory files)
  with assms show ?thesis by (simp add: unlink_def lookup_file_def)
qed

lemma render_pdf_ok:
  assumes "\<forall>c. engine_ok ev c" "output_dir w = Directory files" "html_path \<noteq> pdf_path"
  shows "fst (render_pdf ev html_content html_path pdf_path w) = Inr ()"
  using assms
  by (simp add: render_pdf_def bind_def write_file_def with_sync_playwright_def
      render_pdf_body_def engine_goto_def engine_page_pdf_def engine_eq lookup_file_def
      print_line_def)

lemma main_retention:
  assumes "fst (main ev cfg argv w) = Inr ()"
  shows "\<exists>doc w4 w5. fst (build_document ev cfg w) = Inr doc
      \<and> lookup_file HTML_FILE w4 = Some doc
      \<and> (if ''--html'' \<notin> set argv then unlink HTML_FILE True w4 else (Inr (), w4)) = (Inr (), w5)
      \<and> snd (main ev cfg argv w) = print_line (Line ''\<newline>Done.'') w5"
proof -
  from main_Inr [OF assms] obtain files doc w3 w4 w5 where
    b: "build_document ev cfg
        (print_line (Line ''Building AI Security Architecture Guide...'')
           (w\<lparr>output_dir := Directory files\<rparr>)) = (Inr doc, w3)"
    and r: "render_pdf ev doc HTML_FILE PDF_FILE w3 = (Inr (), w4)"
    and u: "(if ''--html'' \<notin> set argv then unlink HTML_FILE True w4 else (Inr (), w4)) = (Inr (), w5)"
    and m: "snd (main ev cfg argv w) = print_line (Line ''\<newline>Done.'') w5"
    by blast
  let ?w2 = "print_line (Line ''Building AI Security Architecture Guide...'')
           (w\<lparr>output_dir := Directory files\<rparr>)"
  from b have b1: "fst (build_document ev cfg ?w2) = Inr doc" by simp
  have c: "style_file ?w2 = style_file w" "content_dir ?w2 = content_dir w"
    "exercises_dir ?w2 = exercises_dir w"
    by (simp_all add: print_line_def)
  from build_document_Inr_cong(1) [OF b1 c] have d: "fst (build_document ev cfg w) = Inr doc" .
  from build_document_Inr_cong(2) [OF b1 c] obtain out where
    "snd (build_document ev cfg ?w2) = ?w2\<lparr>stdout := out\<rparr>"
    by blast
  with b have "w3 = ?w2\<lparr>stdout := out\<rparr>" by simp
  then have "output_dir w3 = Directory files"
    by (simp add: print_line_def)
  from render_pdf_writes_first [OF this paths_differ, of ev doc] r
  have "lookup_file HTML_FILE w4 = Some doc" by simp
  with d u m show ?thesis by blast
qed

lemma main_ok:
  assumes ok: "\<forall>c. engine_ok ev c" and s: "style_file w = Some (Text css)"
    and r: "readable (content_dir w) (chapters cfg)" "readable (exercises_dir w) (exercises cfg)"
    and o: "output_dir w \<noteq> NotADirectory"
  shows "fst (main ev cfg argv w) = Inr ()"
proof -
  have "\<exists>files. mkdir_exist_ok w = (Inr (), w\<lparr>output_dir := Directory files\<rparr>)"
  proof (cases "output_dir w")
    case Missing
    then have "mkdir_exist_ok w = (Inr (), w\<lparr>output_dir := Directory Map.empty\<rparr>)"
      by (simp add: mkdir_exist_ok_def)
    then show ?thesis by (rule exI [of _ Map.empty])
  next
    case NotADirectory
    with o show ?thesis by simp
  next
    case (Directory files)
    then have "w\<lparr>output_dir := Directory files\<rparr> = w" by simp
    with Directory have "mkdir_exist_ok w = (Inr (), w\<lparr>output_dir := Directory files\<rparr>)"
      by (simp add: mkdir_exist_ok_def)
    then show ?thesis by (rule exI [of _ files])
  qed
  then obtain files where m: "mkdir_exist_ok w = (Inr (), w\<lparr>output_dir := Directory files\<rparr>)"
    by blast
  let ?w2 = "print_line (Line ''Building AI Security Architecture Guide...'')
           (w\<lparr>output_dir := Directory files\<rparr>)"
  have c: "style_file ?w2 = Some (Text css)" "readable (content_dir ?w2) (chapters cfg)"
    "readable (exercises_dir ?w2) (exercises cfg)"
    using s r by (simp_all add: print_line_def)
  obtain doc w3 where b: "build_document ev cfg ?w2 = (Inr doc, w3)"
    and w3: "w3 = ?w2\<lparr>stdout := stdout ?w2 @ sections_output ev cfg ?w2\<rparr>"
    by (simp add: build_document_readable [OF c])
  from w3 have d: "output_dir w3 = Directory files"
    by (simp add: print_line_def)
  obtain w4 where rp: "render_pdf ev doc HTML_FILE PDF_FILE w3 = (Inr (), w4)"
    using render_pdf_ok [OF ok d paths_differ, of doc]
    by (cases "render_pdf ev doc HTML_FILE PDF_FILE w3") auto
  from render_pdf_writes_first [OF d paths_differ, of ev doc] rp
  have "lookup_file HTML_FILE w4 = Some doc" by simp
  from unlink_present [OF this, of True] obtain w5 where
    ul: "unlink HTML_FILE True w4 = (Inr (), w5)"
    by (cases "unlink HTML_FILE True w4") auto
  show ?thesis
    by (simp add: main_def Let_def bind_def m b rp ul)
qed

text \<open>
  Claim C6. \<open>render_pdf\<close> writes the document text to the intermediate path before it
  calls the engine: the file holds that text afterwards whatever the engine does, and
  when the write fails the engine is not called. When \<open>main\<close> returns, the
  intermediate file is absent if \<open>--html\<close> was not given, and holds the assembled document
  if it was. Unlinking with \<open>missing_ok\<close> a file that is absent is not an error.
\<close>

theorem intermediate_artifact_retention:
  "(output_dir w = Directory files \<and> html_path \<noteq> pdf_path \<longrightarrow>
      lookup_file html_path (snd (render_pdf ev html_content html_path pdf_path w)) =
        Some html_content)
   \<and> (fst (write_file html_path html_content w) \<noteq> Inr () \<longrightarrow>
      render_pdf ev html_content html_path pdf_path w =
        (fst (write_file html_path html_content w), w))
   \<and> (fst (main ev cfg argv w) = Inr () \<and> ''--html'' \<notin> set argv \<longrightarrow>
      lookup_file HTML_FILE (snd (main ev cfg argv w)) = None)
   \<and> (fst (main ev cfg argv w) = Inr () \<and> ''--html'' \<in> set argv \<longrightarrow>
      (\<exists>doc. fst (build_document ev cfg w) = Inr doc
         \<and> lookup_file HTML_FILE (snd (main ev cfg argv w)) = Some doc))
   \<and> (lookup_file path w = None \<and> output_dir w \<noteq> NotADirectory \<longrightarrow>
      unlink path True w = (Inr (), w))"
proof -
  have 1: "output_dir w = Directory files \<and> html_path \<noteq> pdf_path \<longrightarrow>
      lookup_file html_path (snd (render_pdf ev html_content html_path pdf_path w)) =
        Some html_content"
    using render_pdf_writes_first [of w files html_path pdf_path ev html_content] by blast
  have 2: "fst (write_file html_path html_content w) \<noteq> Inr () \<longrightarrow>
      render_pdf ev html_content html_path pdf_path w =
        (fst (write_file html_path html_content w), w)"
    using render_pdf_write_fails [of html_path html_content w ev pdf_path] by blast
  have 3: "fst (main ev cfg argv w) = Inr () \<and> ''--html'' \<notin> set argv \<longrightarrow>
      lookup_file HTML_FILE (snd (main ev cfg argv w)) = None"
  proof (intro impI)
    assume a: "fst (main ev cfg argv w) = Inr () \<and> ''--html'' \<notin> set argv"
    from main_retention [of ev cfg argv w] a obtain w4 w5 where
      "unlink HTML_FILE True w4 = (Inr (), w5)"
      "snd (main ev cfg argv w) = print_line (Line ''\<newline>Done.'') w5"
      by auto
    with unlink_removes [of HTML_FILE True w4 w5] show
      "lookup_file HTML_FILE (snd (main ev cfg argv w)) = None"
      by (simp add: lookup_file_print_line)
  qed
  have 4: "fst (main ev cfg argv w) = Inr () \<and> ''--html'' \<in> set argv \<longrightarrow>
      (\<exists>doc. fst (build_document ev cfg w) = Inr doc
         \<and> lookup_file HTML_FILE (snd (main ev cfg argv w)) = Some doc)"
  proof (intro impI)
    assume a: "fst (main ev cfg argv w) = Inr () \<and> ''--html'' \<in> set argv"
    from main_retention [of ev cfg argv w] a obtain doc w4 where
      "fst (build_document ev cfg w) = Inr doc" "lookup_file HTML_FILE w4 = Some doc"
      "snd (main ev cfg argv w) = print_line (Line ''\<newline>Done.'') w4"
      by auto
    then have "fst (build_document ev cfg w) = Inr doc
         \<and> lookup_file HTML_FILE (snd (main ev cfg argv w)) = Some doc"
      by (simp add: lookup_file_print_line)
    then show "\<exists>doc. fst (build_document ev cfg w) = Inr doc
         \<and> lookup_file HTML_FILE (snd (main ev cfg argv w)) = Some doc"
      by blast
  qed
  have 5: "lookup_file path w = None \<and> output_dir w \<noteq> NotADirectory \<longrightarrow>
      unlink path True w = (Inr (), w)"
    using unlink_absent [of path w] by blast
  from 1 2 3 4 5 show ?thesis by (intro conjI)
qed

theorem intermediate_artifact_retention_witness:
  "output_dir demo_output_world = Directory Map.empty \<and> HTML_FILE \<noteq> PDF_FILE
   \<and> fst (render_pdf demo_failing_env ''<html></html>'' HTML_FILE PDF_FILE demo_output_world) =
       Inl (EngineError WaitForLoadState)
   \<and> lookup_file HTML_FILE
       (snd (render_pdf demo_failing_env ''<html></html>'' HTML_FILE PDF_FILE demo_output_world)) =
       Some ''<html></html>''
   \<and> fst (write_file HTML_FILE ''<html></html>'' demo_world) \<noteq> Inr ()
   \<and> render_pdf demo_env ''<html></html>'' HTML_FILE PDF_FILE demo_world =
       (Inl (FileNotFoundError HTML_FILE), demo_world)
   \<and> fst (main demo_env demo_config [''build.py''] demo_world) = Inr ()
   \<and> ''--html'' \<notin> set [''build.py'']
   \<and> lookup_file HTML_FILE (snd (main demo_env demo_config [''build.py''] demo_world)) = None
   \<and> fst (main demo_env demo_config [''build.py'', ''--html''] demo_world) = Inr ()
   \<and> ''--html'' \<in> set [''build.py'', ''--html'']
   \<and> (\<exists>doc. fst (build_document demo_env demo_config demo_world) = Inr doc
        \<and> lookup_file HTML_FILE
            (snd (main demo_env demo_config [''build.py'', ''--html''] demo_world)) = Some doc)
   \<and> lookup_file HTML_FILE demo_world = None \<and> output_dir demo_world \<noteq> NotADirectory
   \<and> unlink HTML_FILE True demo_world = (Inr (), demo_world)"
proof -
  have ok: "\<forall>c. engine_ok demo_env c"
    by (simp add: demo_env_def demo_engine_ok_def)
  have s: "style_file demo_world = Some (Text ''body { }'')"
    by (simp add: demo_world_def)
  have o: "output_dir demo_world \<noteq> NotADirectory" "lookup_file HTML_FILE demo_world = None"
    by (simp_all add: demo_world_def lookup_file_def)
  have d: "output_dir demo_output_world = Directory Map.empty"
    by (simp add: demo_output_world_def)
  have f: "fst (render_pdf demo_failing_env ''<html></html>'' HTML_FILE PDF_FILE demo_output_world) =
       Inl (EngineError WaitForLoadState)"
    by (simp add: render_pdf_def bind_def write_file_def with_sync_playwright_def
        render_pdf_body_def engine_goto_def engine_page_pdf_def engine_eq lookup_file_def
        demo_failing_env_def demo_failing_ok_def demo_output_world_def)
  have w: "fst (write_file HTML_FILE ''<html></html>'' demo_world) = Inl (FileNotFoundError HTML_FILE)"
    by (simp add: write_file_def demo_world_def)
  then have w': "fst (write_file HTML_FILE ''<html></html>'' demo_world) \<noteq> Inr ()"
    by simp
  have m1: "fst (main demo_env demo_config [''build.py''] demo_world) = Inr ()"
    using ok s demo_readable o(1) by (rule main_ok)
  have m2: "fst (main demo_env demo_config [''build.py'', ''--html''] demo_world) = Inr ()"
    using ok s demo_readable o(1) by (rule main_ok)
  have a: "''--html'' \<notin> set [''build.py'']" "''--html'' \<in> set [''build.py'', ''--html'']"
    by simp_all
  note T1 = intermediate_artifact_retention [of demo_output_world Map.empty HTML_FILE PDF_FILE
      demo_failing_env "''<html></html>''" demo_config "[''build.py'']" HTML_FILE]
  note T2 = intermediate_artifact_retention [of demo_world Map.empty HTML_FILE PDF_FILE
      demo_env "''<html></html>''" demo_config "[''build.py'']" HTML_FILE]
  note T3 = intermediate_artifact_retention [of demo_world Map.empty HTML_FILE PDF_FILE
      demo_env "''<html></html>''" demo_config "[''build.py'', ''--html'']" HTML_FILE]
  from T1 d paths_differ have 1: "lookup_file HTML_FILE
       (snd (render_pdf demo_failing_env ''<html></html>'' HTML_FILE PDF_FILE demo_output_world)) =
       Some ''<html></html>''"
    by blast
  from T2 w' have "render_pdf demo_env ''<html></html>'' HTML_FILE PDF_FILE demo_world =
       (fst (write_file HTML_FILE ''<html></html>'' demo_world), demo_world)"
    by blast
  with w have 2: "render_pdf demo_env ''<html></html>'' HTML_FILE PDF_FILE demo_world =
       (Inl (FileNotFoundError HTML_FILE), demo_world)"
    by simp
  from T2 m1 a(1) have 3:
    "lookup_file HTML_FILE (snd (main demo_env demo_config [''build.py''] demo_world)) = None"
    by blast
  from T3 m2 a(2) have 4: "\<exists>doc. fst (build_document demo_env demo_config demo_world) = Inr doc
        \<and> lookup_file HTML_FILE
            (snd (main demo_env demo_config [''build.py'', ''--html''] demo_world)) = Some doc"
    by blast
  from T2 o have 5: "unlink HTML_FILE True demo_world = (Inr (), demo_world)"
    by blast
  from d paths_differ f 1 w' 2 m1 a(1) 3 m2 a(2) 4 o(2) o(1) 5 show ?thesis
    by (intro conjI)
qed

end
